theory Spec2Isabelle
  imports Complex_Main "HOL-Library.Word" "HOL-Library.Multiset"
begin

unbundle bit_operations_syntax

section \<open>JavaScript numbers\<close>

text \<open>
  The values of the TypeScript type \<open>number\<close>: a finite value, the two infinities and NaN.
  Finite values are exact rationals: rounding to 64-bit floats and the sign of zero are not
  modelled. Division by zero and the arithmetic of NaN are, since \<open>normalize\<close> depends
  on them (in HOL \<open>x / 0 = 0\<close>, in JavaScript \<open>0 / 0\<close> is NaN).
\<close>

datatype number = Fin rat | PInf | NInf | NaN

fun isNaN :: "number \<Rightarrow> bool" where
  "isNaN NaN = True"
| "isNaN _ = False"

fun isFinite :: "number \<Rightarrow> bool" where
  "isFinite (Fin _) = True"
| "isFinite _ = False"

fun num_neg :: "number \<Rightarrow> number" where
  "num_neg (Fin a) = Fin (- a)"
| "num_neg PInf = NInf"
| "num_neg NInf = PInf"
| "num_neg NaN = NaN"

fun num_add :: "number \<Rightarrow> number \<Rightarrow> number" where
  "num_add (Fin a) (Fin b) = Fin (a + b)"
| "num_add NaN _ = NaN"
| "num_add _ NaN = NaN"
| "num_add PInf NInf = NaN"
| "num_add NInf PInf = NaN"
| "num_add PInf _ = PInf"
| "num_add NInf _ = NInf"
| "num_add (Fin a) b = b"

definition num_sub :: "number \<Rightarrow> number \<Rightarrow> number" where
  "num_sub a b = num_add a (num_neg b)"

fun num_div :: "number \<Rightarrow> number \<Rightarrow> number" where
  "num_div (Fin a) (Fin b) =
     (if b \<noteq> 0 then Fin (a / b)
      else if a = 0 then NaN
      else if 0 < a then PInf else NInf)"
| "num_div NaN _ = NaN"
| "num_div _ NaN = NaN"
| "num_div (Fin a) _ = Fin 0"
| "num_div PInf (Fin b) = (if b < 0 then NInf else PInf)"
| "num_div NInf (Fin b) = (if b < 0 then PInf else NInf)"
| "num_div _ _ = NaN"

text \<open>The comparison \<open><\<close>: false whenever an operand is NaN.\<close>

fun num_lt :: "number \<Rightarrow> number \<Rightarrow> bool" where
  "num_lt (Fin a) (Fin b) = (a < b)"
| "num_lt NaN _ = False"
| "num_lt _ NaN = False"
| "num_lt NInf NInf = False"
| "num_lt NInf _ = True"
| "num_lt _ NInf = False"
| "num_lt PInf _ = False"
| "num_lt (Fin a) PInf = True"


text \<open>\<open>Math.min(...values)\<close> and \<open>Math.max(...values)\<close>: NaN if any argument is NaN,
  \<open>Infinity\<close> and \<open>-Infinity\<close> on no arguments.\<close>

fun min2 :: "number \<Rightarrow> number \<Rightarrow> number" where
  "min2 NaN _ = NaN"
| "min2 _ NaN = NaN"
| "min2 a b = (if num_lt b a then b else a)"

fun max2 :: "number \<Rightarrow> number \<Rightarrow> number" where
  "max2 NaN _ = NaN"
| "max2 _ NaN = NaN"
| "max2 a b = (if num_lt a b then b else a)"

definition Math_min :: "number list \<Rightarrow> number" where
  "Math_min values = foldr min2 values PInf"

definition Math_max :: "number list \<Rightarrow> number" where
  "Math_max values = foldr max2 values NInf"

fun Math_floor :: "number \<Rightarrow> number" where
  "Math_floor (Fin a) = Fin (of_int \<lfloor>a\<rfloor>)"
| "Math_floor x = x"

text \<open>The operator \<open>^\<close> of JavaScript is bitwise exclusive or on the operands converted by
  ToInt32: truncation towards zero, then reduction modulo \<open>2 ^ 32\<close> read as two's complement;
  NaN and the infinities convert to 0.\<close>

definition truncate_rat :: "rat \<Rightarrow> int" where
  "truncate_rat r = (if r < 0 then \<lceil>r\<rceil> else \<lfloor>r\<rfloor>)"

fun ToInt32 :: "number \<Rightarrow> 32 word" where
  "ToInt32 (Fin a) = word_of_int (truncate_rat a)"
| "ToInt32 _ = 0"

definition bitxor :: "number \<Rightarrow> number \<Rightarrow> number" where
  "bitxor a b = Fin (of_int (sint (ToInt32 a XOR ToInt32 b)))"

section \<open>Documents and tables\<close>

text \<open>
  Document ids are natural numbers. A table is the list of its rows in creation order, so
  that an index read \<open>.order('desc').first()\<close> is the last matching row and
  \<open>.first()\<close> the first one. Rows are never updated or deleted by this module.
\<close>

type_synonym id = nat
type_synonym vector = "number list"

datatype memory_data = Conversation id | OtherData string

record embedding_row =
  e_id :: id
  e_creationTime :: rat
  e_playerId :: id
  e_embedding :: vector
  e_text :: string

record memory_row =
  m_id :: id
  m_creationTime :: rat
  m_playerId :: id
  m_description :: string
  m_embeddingId :: id
  m_importance :: number
  m_data :: memory_data

record access_row =
  a_id :: id
  a_creationTime :: rat
  a_memoryId :: id

record journal_row =
  j_id :: id
  j_creationTime :: rat
  j_playerId :: id
  j_ts :: rat
  j_type :: string
  j_conversationId :: "id option"
  j_audience :: "id list"
  j_content :: string

record database =
  embeddings :: "embedding_row list"
  memories :: "memory_row list"
  memoryAccesses :: "access_row list"
  journal :: "journal_row list"

datatype error =
    NoMemoryFound id id
  | ArgumentValidationError
  | TypeError

text \<open>\<open>asyncMap\<close> (\<open>Promise.all\<close> over the mapped list): the results in order, or the
  rejection of the first element that fails.\<close>

fun asyncMap :: "'a list \<Rightarrow> ('a \<Rightarrow> error + 'b) \<Rightarrow> error + 'b list" where
  "asyncMap [] f = Inr []"
| "asyncMap (x # xs) f =
     (case f x of
        Inl e \<Rightarrow> Inl e
      | Inr y \<Rightarrow> (case asyncMap xs f of Inl e \<Rightarrow> Inl e | Inr ys \<Rightarrow> Inr (y # ys)))"

definition getMemoryByEmbeddingId :: "database \<Rightarrow> id \<Rightarrow> id \<Rightarrow> error + memory_row" where
  "getMemoryByEmbeddingId db playerId embeddingId =
     (case find (\<lambda>m. m_playerId m = playerId \<and> m_embeddingId m = embeddingId)
             (rev (memories db)) of
        None \<Rightarrow> Inl (NoMemoryFound playerId embeddingId)
      | Some doc \<Rightarrow> Inr doc)"

definition getMemories :: "database \<Rightarrow> id \<Rightarrow> id list \<Rightarrow> error + memory_row list" where
  "getMemories db playerId embeddingIds =
     asyncMap embeddingIds (\<lambda>i. getMemoryByEmbeddingId db playerId i)"

section \<open>Ranked retrieval\<close>

record candidate =
  c_id :: id
  c_score :: number

record scored =
  memory :: memory_row
  overallScore :: number

definition normalize :: "number \<Rightarrow> number \<times> number \<Rightarrow> number" where
  "normalize v rng =
     (case rng of (mn, mx) \<Rightarrow> num_div (num_sub v mn) (num_sub mx mn))"

definition makeRange :: "number list \<Rightarrow> number \<times> number" where
  "makeRange values = (Math_min values, Math_max values)"

definition lastAccess :: "database \<Rightarrow> memory_row \<Rightarrow> access_row option" where
  "lastAccess db m = find (\<lambda>a. a_memoryId a = m_id m) (rev (memoryAccesses db))"

text \<open>The body of the \<open>recencyScore\<close> callback, for the access row it has read.\<close>

definition recencyOf :: "rat \<Rightarrow> memory_row \<Rightarrow> access_row option \<Rightarrow> number" where
  "recencyOf ts m access =
     (if access = None then Fin 1
      else
        let accessTime =
              (case access of Some a \<Rightarrow> a_creationTime a | None \<Rightarrow> m_creationTime m)
        in bitxor (Fin (99 / 100))
             (Math_floor
               (num_div (num_div (num_div (num_sub (Fin ts) (Fin accessTime)) (Fin 1000))
                  (Fin 60)) (Fin 60))))"

definition recencyScore :: "database \<Rightarrow> rat \<Rightarrow> memory_row list \<Rightarrow> number list" where
  "recencyScore db ts relatedMemories =
     map (\<lambda>m. recencyOf ts m (lastAccess db m)) relatedMemories"

text \<open>\<open>Array.prototype.sort\<close> with a comparison function: a stable sort; a comparison
  result of NaN counts as 0. Insertion from the right keeps equal elements in their order.\<close>

fun cmp_sign :: "number \<Rightarrow> int" where
  "cmp_sign (Fin a) = sgn \<lfloor>sgn a\<rfloor>"
| "cmp_sign PInf = 1"
| "cmp_sign NInf = - 1"
| "cmp_sign NaN = 0"

fun insert_by :: "('a \<Rightarrow> 'a \<Rightarrow> number) \<Rightarrow> 'a \<Rightarrow> 'a list \<Rightarrow> 'a list" where
  "insert_by cmp x [] = [x]"
| "insert_by cmp x (y # ys) =
     (if cmp_sign (cmp x y) \<le> 0 then x # y # ys else y # insert_by cmp x ys)"

definition sort_by :: "('a \<Rightarrow> 'a \<Rightarrow> number) \<Rightarrow> 'a list \<Rightarrow> 'a list" where
  "sort_by cmp xs = foldr (insert_by cmp) xs []"

text \<open>\<open>xs.slice(0, cnt)\<close> for an integral \<open>count\<close>: a negative end counts from the
  end of the array.\<close>

definition slice0 :: "'a list \<Rightarrow> int \<Rightarrow> 'a list" where
  "slice0 xs cnt =
     (let n = int (length xs);
          k = (if cnt < 0 then max (n + cnt) 0 else min cnt n)
      in take (nat k) xs)"

definition insertAccess :: "rat \<Rightarrow> id \<Rightarrow> database \<Rightarrow> database" where
  "insertAccess now memoryId db =
     db\<lparr>memoryAccesses := memoryAccesses db @
          [\<lparr>a_id = length (memoryAccesses db), a_creationTime = now, a_memoryId = memoryId\<rparr>]\<rparr>"

definition memoryScores ::
  "candidate list \<Rightarrow> memory_row list \<Rightarrow> number list \<Rightarrow> scored list" where
  "memoryScores candidates relatedMemories recency =
     (let relevanceRange = makeRange (map c_score candidates);
          importanceRange = makeRange (map m_importance relatedMemories);
          recencyRange = makeRange recency
      in map (\<lambda>idx.
            \<lparr>memory = relatedMemories ! idx,
             overallScore =
               num_add
                 (num_add (normalize (c_score (candidates ! idx)) relevanceRange)
                    (normalize (m_importance (relatedMemories ! idx)) importanceRange))
                 (normalize (recency ! idx) recencyRange)\<rparr>)
          [0 ..< length relatedMemories])"

text \<open>The mutation \<open>accessMemories\<close>. \<open>ts\<close> is \<open>Date.now()\<close>, which is also the creation
  time of the rows the mutation inserts. A mutation that throws writes nothing: the result
  \<open>Inl\<close> carries no database.\<close>

definition accessMemories ::
  "rat \<Rightarrow> id \<Rightarrow> candidate list \<Rightarrow> int \<Rightarrow> database \<Rightarrow> error + (scored list \<times> database)" where
  "accessMemories ts playerId candidates cnt db =
     (case asyncMap candidates (\<lambda>c. getMemoryByEmbeddingId db playerId (c_id c)) of
        Inl e \<Rightarrow> Inl e
      | Inr relatedMemories \<Rightarrow>
          let recency = recencyScore db ts relatedMemories;
              sorted = sort_by (\<lambda>a b. num_sub (overallScore b) (overallScore a))
                         (memoryScores candidates relatedMemories recency);
              accessed = slice0 sorted cnt
          in Inr (accessed, fold (\<lambda>s. insertAccess ts (m_id (memory s))) accessed db))"

text \<open>The vector index (\<open>queryVectors\<close> of the Pinecone client) is a parameter: a function
  from the query vector, the player and the limit to the ranked matches.\<close>

type_synonym vector_search = "vector \<Rightarrow> id \<Rightarrow> int \<Rightarrow> candidate list"

text \<open>\<open>MemoryDB.search\<close>: the result and the database after the call.\<close>

definition search ::
  "vector_search \<Rightarrow> id \<Rightarrow> vector \<Rightarrow> int option \<Rightarrow> database
     \<Rightarrow> (error + (memory_row \<times> number) list) \<times> database" where
  "search vectorSearch playerId queryEmbedding limit_opt db =
     (let limit = (case limit_opt of None \<Rightarrow> 100 | Some l \<Rightarrow> l);
          results = vectorSearch queryEmbedding playerId limit;
          embeddingIds = map c_id results
      in case getMemories db playerId embeddingIds of
           Inl e \<Rightarrow> (Inl e, db)
         | Inr mems \<Rightarrow>
             (Inr (map (\<lambda>idx. (mems ! idx, c_score (results ! idx))) [0 ..< length results]),
              db))"

text \<open>\<open>MemoryDB.accessMemories\<close>: over-fetches \<open>10 * count\<close> matches and runs the mutation.\<close>

definition MemoryDB_accessMemories ::
  "vector_search \<Rightarrow> rat \<Rightarrow> id \<Rightarrow> vector \<Rightarrow> int option \<Rightarrow> database
     \<Rightarrow> (error + scored list) \<times> database" where
  "MemoryDB_accessMemories vectorSearch ts playerId queryEmbedding cnt_opt db =
     (let cnt = (case cnt_opt of None \<Rightarrow> 10 | Some c \<Rightarrow> c);
          results = vectorSearch queryEmbedding playerId (10 * cnt)
      in case accessMemories ts playerId results cnt db of
           Inl e \<Rightarrow> (Inl e, db)
         | Inr (accessed, db') \<Rightarrow> (Inr accessed, db'))"

subsection \<open>Floating-point arithmetic as a parameter\<close>

text \<open>
  The code computes \<open>+\<close>, \<open>-\<close> and \<open>/\<close> on 64-bit floats, which round. Here are the
  same functions with these three operations as parameters; with \<open>exact_arith\<close>, the
  arithmetic without rounding, they are the functions above. Comparison, \<open>Math.min\<close>,
  \<open>Math.max\<close>, \<open>Math.floor\<close> and \<open>^\<close> do not round.
\<close>

record arith =
  fl_add :: "number \<Rightarrow> number \<Rightarrow> number"
  fl_sub :: "number \<Rightarrow> number \<Rightarrow> number"
  fl_div :: "number \<Rightarrow> number \<Rightarrow> number"

definition exact_arith :: arith where
  "exact_arith = \<lparr>fl_add = num_add, fl_sub = num_sub, fl_div = num_div\<rparr>"

definition normalize_fl :: "arith \<Rightarrow> number \<Rightarrow> number \<times> number \<Rightarrow> number" where
  "normalize_fl ar v rng =
     (case rng of (mn, mx) \<Rightarrow> fl_div ar (fl_sub ar v mn) (fl_sub ar mx mn))"

definition recencyOf_fl :: "arith \<Rightarrow> rat \<Rightarrow> memory_row \<Rightarrow> access_row option \<Rightarrow> number" where
  "recencyOf_fl ar ts m access =
     (if access = None then Fin 1
      else
        let accessTime =
              (case access of Some a \<Rightarrow> a_creationTime a | None \<Rightarrow> m_creationTime m)
        in bitxor (Fin (99 / 100))
             (Math_floor
               (fl_div ar
                  (fl_div ar (fl_div ar (fl_sub ar (Fin ts) (Fin accessTime)) (Fin 1000))
                     (Fin 60))
                  (Fin 60))))"

definition recencyScore_fl ::
  "arith \<Rightarrow> database \<Rightarrow> rat \<Rightarrow> memory_row list \<Rightarrow> number list" where
  "recencyScore_fl ar db ts relatedMemories =
     map (\<lambda>m. recencyOf_fl ar ts m (lastAccess db m)) relatedMemories"

definition memoryScores_fl ::
  "arith \<Rightarrow> candidate list \<Rightarrow> memory_row list \<Rightarrow> number list \<Rightarrow> scored list" where
  "memoryScores_fl ar candidates relatedMemories recency =
     (let relevanceRange = makeRange (map c_score candidates);
          importanceRange = makeRange (map m_importance relatedMemories);
          recencyRange = makeRange recency
      in map (\<lambda>idx.
            \<lparr>memory = relatedMemories ! idx,
             overallScore =
               fl_add ar
                 (fl_add ar (normalize_fl ar (c_score (candidates ! idx)) relevanceRange)
                    (normalize_fl ar (m_importance (relatedMemories ! idx)) importanceRange))
                 (normalize_fl ar (recency ! idx) recencyRange)\<rparr>)
          [0 ..< length relatedMemories])"

definition accessMemories_fl ::
  "arith \<Rightarrow> rat \<Rightarrow> id \<Rightarrow> candidate list \<Rightarrow> int \<Rightarrow> database
     \<Rightarrow> error + (scored list \<times> database)" where
  "accessMemories_fl ar ts playerId candidates cnt db =
     (case asyncMap candidates (\<lambda>c. getMemoryByEmbeddingId db playerId (c_id c)) of
        Inl e \<Rightarrow> Inl e
      | Inr relatedMemories \<Rightarrow>
          let recency = recencyScore_fl ar db ts relatedMemories;
              sorted = sort_by (\<lambda>a b. fl_sub ar (overallScore b) (overallScore a))
                         (memoryScores_fl ar candidates relatedMemories recency);
              accessed = slice0 sorted cnt
          in Inr (accessed, fold (\<lambda>s. insertAccess ts (m_id (memory s))) accessed db))"

section \<open>Importance from the language model's answer\<close>

definition is_digit :: "char \<Rightarrow> bool" where
  "is_digit c = (48 \<le> (of_char c :: nat) \<and> (of_char c :: nat) \<le> 57)"

definition digit_val :: "char \<Rightarrow> nat" where
  "digit_val c = of_char c - 48"

text \<open>\<open>parseInt\<close> of a string of one character: the digit, or NaN.\<close>

definition parseInt_char :: "char \<Rightarrow> number" where
  "parseInt_char c = (if is_digit c then Fin (of_nat (digit_val c)) else NaN)"

text \<open>
  \<open>parseFloat\<close>: leading white space is skipped, then the longest prefix that is a decimal
  literal is read: an optional sign, then \<open>Infinity\<close>, or digits with an optional fraction
  and an optional exponent; NaN when there is no such prefix. Characters are 8-bit; the value
  is exact (no rounding, no overflow to \<open>Infinity\<close>).
\<close>

definition is_ws :: "char \<Rightarrow> bool" where
  "is_ws c = ((of_char c :: nat) \<in> {9, 10, 11, 12, 13, 32, 160})"

definition digits_val :: "string \<Rightarrow> nat" where
  "digits_val ds = foldl (\<lambda>acc c. 10 * acc + digit_val c) 0 ds"

definition read_sign :: "string \<Rightarrow> bool \<times> string" where
  "read_sign s =
     (case s of
        [] \<Rightarrow> (False, s)
      | c # r \<Rightarrow>
          if c = CHR ''-'' then (True, r)
          else if c = CHR ''+'' then (False, r)
          else (False, s))"

definition read_exponent :: "string \<Rightarrow> int" where
  "read_exponent s =
     (case s of
        [] \<Rightarrow> 0
      | c # r \<Rightarrow>
          if c = CHR ''e'' \<or> c = CHR ''E'' then
            (case read_sign r of
               (eneg, d) \<Rightarrow>
                 let ed = takeWhile is_digit d
                 in if ed = [] then 0
                    else if eneg then - int (digits_val ed) else int (digits_val ed))
          else 0)"

definition pow10 :: "int \<Rightarrow> rat" where
  "pow10 e = (if 0 \<le> e then 10 ^ nat e else 1 / 10 ^ nat (- e))"

definition parseFloat :: "string \<Rightarrow> number" where
  "parseFloat s =
     (case read_sign (dropWhile is_ws s) of
        (neg, u) \<Rightarrow>
          if take 8 u = ''Infinity'' then (if neg then NInf else PInf)
          else
            let ip = takeWhile is_digit u;
                r1 = dropWhile is_digit u;
                hasDot = (case r1 of [] \<Rightarrow> False | c # r \<Rightarrow> c = CHR ''.'');
                fp = (if hasDot then takeWhile is_digit (tl r1) else []);
                r2 = (if hasDot then dropWhile is_digit (tl r1) else r1)
            in if ip = [] \<and> fp = [] then NaN
               else
                 let mant = of_nat (digits_val ip) + of_nat (digits_val fp) / 10 ^ length fp;
                     v = mant * pow10 (read_exponent r2)
                 in Fin (if neg then - v else v))"

text \<open>The loop over the characters of the answer: the first one that \<open>parseInt\<close> reads
  as a number (then \<open>break\<close>), or the initial value when there is none.\<close>

fun firstDigit :: "string \<Rightarrow> number \<Rightarrow> number" where
  "firstDigit [] importance = importance"
| "firstDigit (c # cs) importance =
     (let number = parseInt_char c
      in if \<not> isNaN number then number else firstDigit cs importance)"

text \<open>Lines 108 to 120: the loop's result is assigned, then overwritten by
  \<open>parseFloat(importanceRaw)\<close>, then replaced by 5 if that is NaN.\<close>

definition importanceOf :: "string \<Rightarrow> number" where
  "importanceOf importanceRaw =
     (let importance = NaN;
          importance = firstDigit importanceRaw importance;
          importance = parseFloat importanceRaw;
          importance = (if isNaN importance then Fin 5 else importance)
      in importance)"

section \<open>Ingestion\<close>

record new_memory =
  n_playerId :: id
  n_description :: string
  n_data :: memory_data
  n_importance :: "number option"

text \<open>What the callback of \<open>addMemories\<close> returns for a draft: the draft with its importance
  and with \<open>embeddings[idx]\<close>, which is \<open>undefined\<close> (\<open>None\<close>) when \<open>pop()\<close> found the
  array empty.\<close>

record annotated =
  an_playerId :: id
  an_description :: string
  an_data :: memory_data
  an_embedding :: "vector option"
  an_importance :: number

text \<open>\<open>NewMemoryWithEmbedding\<close>, the argument type of the mutation: \<open>embedding\<close> is an
  array of numbers.\<close>

record new_memory_with_embedding =
  v_playerId :: id
  v_description :: string
  v_data :: memory_data
  v_embedding :: vector
  v_importance :: number

text \<open>The language model and the embedding provider are parameters: \<open>chatGPTCompletion\<close>
  from the contents of the messages and \<open>max_tokens\<close> to the content of the answer,
  \<open>fetchEmbeddingBatch\<close> from the texts to the vectors it returns.\<close>

type_synonym chat_completion = "string list \<Rightarrow> nat \<Rightarrow> string"
type_synonym embedding_batch = "string list \<Rightarrow> vector list"

text \<open>The world of an action: the database, the batches upserted into the external vector
  store, and the batches of texts sent to the embedding provider.\<close>

record world =
  w_db :: database
  w_upserts :: "(id \<times> vector option \<times> id) list list"
  w_embedCalls :: "string list list"

definition checkEmbeddingCache :: "database \<Rightarrow> string list \<Rightarrow> vector option list" where
  "checkEmbeddingCache db texts =
     map (\<lambda>text.
           case find (\<lambda>e. e_text e = text) (embeddings db) of
             Some existing \<Rightarrow> Some (e_embedding existing)
           | None \<Rightarrow> None)
       texts"

text \<open>\<open>cachedEmbeddings.map((cached) => cached || missingEmbeddings.pop()!)\<close> on the
  reversed array: \<open>pop\<close> removes the last element and is \<open>undefined\<close> on an empty array.\<close>

fun popMisses :: "vector option list \<Rightarrow> vector list \<Rightarrow> vector option list" where
  "popMisses [] missingEmbeddings = []"
| "popMisses (Some cached # cs) missingEmbeddings = Some cached # popMisses cs missingEmbeddings"
| "popMisses (None # cs) missingEmbeddings =
     (if missingEmbeddings = [] then None # popMisses cs missingEmbeddings
      else Some (last missingEmbeddings) # popMisses cs (butlast missingEmbeddings))"

definition importancePrompt :: string where
  "importancePrompt =
     ''How important is this? Answer on a scale of 0 to 9. Respond with number only, e.g. ''
       @ [CHR 0x22] @ ''5'' @ [CHR 0x22]"

definition withImportance :: "chat_completion \<Rightarrow> new_memory \<Rightarrow> vector option \<Rightarrow> annotated" where
  "withImportance chatGPTCompletion m embedding =
     (case n_importance m of
        None \<Rightarrow>
          let importanceRaw = chatGPTCompletion [n_description m, importancePrompt] 1
          in \<lparr>an_playerId = n_playerId m, an_description = n_description m,
              an_data = n_data m, an_embedding = embedding,
              an_importance = importanceOf importanceRaw\<rparr>
      | Some i \<Rightarrow>
          \<lparr>an_playerId = n_playerId m, an_description = n_description m,
           an_data = n_data m, an_embedding = embedding, an_importance = i\<rparr>)"

text \<open>The argument validator of the mutation \<open>addMemories\<close>
  (\<open>v.array(v.object(NewMemoryWithEmbedding))\<close>): an element whose \<open>embedding\<close> is
  \<open>undefined\<close> is rejected, and the mutation does not run.\<close>

fun validateArgs :: "annotated list \<Rightarrow> error + new_memory_with_embedding list" where
  "validateArgs [] = Inr []"
| "validateArgs (a # as) =
     (case an_embedding a of
        None \<Rightarrow> Inl ArgumentValidationError
      | Some embedding \<Rightarrow>
          (case validateArgs as of
             Inl e \<Rightarrow> Inl e
           | Inr vs \<Rightarrow>
               Inr (\<lparr>v_playerId = an_playerId a, v_description = an_description a,
                     v_data = an_data a, v_embedding = embedding,
                     v_importance = an_importance a\<rparr> # vs)))"

text \<open>The handler of the mutation \<open>addMemories\<close>: for each element an \<open>embeddings\<close> row,
  then the \<open>memories\<close> row that refers to it.\<close>

fun insertMemories ::
  "rat \<Rightarrow> new_memory_with_embedding list \<Rightarrow> database \<Rightarrow> id list \<times> database" where
  "insertMemories now [] db = ([], db)"
| "insertMemories now (m # ms) db =
     (let embeddingId = length (embeddings db);
          db1 = db\<lparr>embeddings := embeddings db @
                  [\<lparr>e_id = embeddingId, e_creationTime = now, e_playerId = v_playerId m,
                    e_embedding = v_embedding m, e_text = v_description m\<rparr>]\<rparr>;
          db2 = db1\<lparr>memories := memories db1 @
                  [\<lparr>m_id = length (memories db1), m_creationTime = now,
                    m_playerId = v_playerId m, m_description = v_description m,
                    m_embeddingId = embeddingId, m_importance = v_importance m,
                    m_data = v_data m\<rparr>]\<rparr>
      in case insertMemories now ms db2 of (ids, db3) \<Rightarrow> (embeddingId # ids, db3))"

definition addMemories_mutation ::
  "rat \<Rightarrow> annotated list \<Rightarrow> database \<Rightarrow> error + (id list \<times> database)" where
  "addMemories_mutation now mems db =
     (case validateArgs mems of
        Inl e \<Rightarrow> Inl e
      | Inr vs \<Rightarrow> Inr (insertMemories now vs db))"

text \<open>\<open>MemoryDB.addMemories\<close>. \<open>now\<close> is the time of the mutation.\<close>

definition cacheMissesOf :: "new_memory list \<Rightarrow> vector option list \<Rightarrow> string list" where
  "cacheMissesOf memoriesWithoutEmbedding cachedEmbeddings =
     map (\<lambda>idx. n_description (memoriesWithoutEmbedding ! idx))
       (filter (\<lambda>idx. cachedEmbeddings ! idx = None)
          [0 ..< length memoriesWithoutEmbedding])"

definition addMemories ::
  "embedding_batch \<Rightarrow> chat_completion \<Rightarrow> rat \<Rightarrow> new_memory list \<Rightarrow> world
     \<Rightarrow> (error + unit) \<times> world" where
  "addMemories fetchEmbeddingBatch chatGPTCompletion now memoriesWithoutEmbedding w =
     (let cachedEmbeddings =
            checkEmbeddingCache (w_db w) (map n_description memoriesWithoutEmbedding);
          cacheMisses = cacheMissesOf memoriesWithoutEmbedding cachedEmbeddings;
          missingEmbeddings =
            (if cacheMisses \<noteq> [] then fetchEmbeddingBatch cacheMisses else []);
          w1 = (if cacheMisses \<noteq> [] then w\<lparr>w_embedCalls := w_embedCalls w @ [cacheMisses]\<rparr>
                else w);
          embeddings = popMisses cachedEmbeddings (rev missingEmbeddings);
          mems = map (\<lambda>idx. withImportance chatGPTCompletion
                               (memoriesWithoutEmbedding ! idx) (embeddings ! idx))
                   [0 ..< length memoriesWithoutEmbedding]
      in case addMemories_mutation now mems (w_db w1) of
           Inl e \<Rightarrow> (Inl e, w1)
         | Inr (embeddingIds, db') \<Rightarrow>
             (Inr (),
              w1\<lparr>w_db := db',
                 w_upserts := w_upserts w1 @
                   [map (\<lambda>idx. (embeddingIds ! idx, embeddings ! idx, an_playerId (mems ! idx)))
                      [0 ..< length embeddingIds]]\<rparr>))"

section \<open>Conversation summaries\<close>

record message =
  msg_from :: id
  msg_to :: "id list"
  msg_ts :: rat
  msg_content :: string

text \<open>\<open>clientMessageMapper\<close> and \<open>chatHistoryFromMessages\<close> are parameters.\<close>

type_synonym message_mapper = "database \<Rightarrow> journal_row \<Rightarrow> message"

fun truthy :: "number \<Rightarrow> bool" where
  "truthy (Fin a) = (a \<noteq> 0)"
| "truthy NaN = False"
| "truthy _ = True"

definition conversationOf :: "memory_data \<Rightarrow> id option" where
  "conversationOf d = (case d of Conversation c \<Rightarrow> Some c | OtherData _ \<Rightarrow> None)"

definition lastConversationMemoryOf :: "database \<Rightarrow> id \<Rightarrow> memory_row option" where
  "lastConversationMemoryOf db playerId =
     find (\<lambda>m. m_playerId m = playerId \<and> conversationOf (m_data m) \<noteq> None)
       (rev (memories db))"

text \<open>The \<open>else\<close> branch that computes \<open>lastMemoryTs\<close>: the latest conversation memory
  of the player created after the first message and belonging to this conversation, or 0.\<close>

definition previousMemoryTs :: "database \<Rightarrow> id \<Rightarrow> id \<Rightarrow> journal_row list \<Rightarrow> error + rat" where
  "previousMemoryTs db playerId conversationId allMessages =
     (case allMessages of
        [] \<Rightarrow> Inl TypeError
      | first # _ \<Rightarrow>
          let previousConversationMemory =
                find (\<lambda>m. conversationOf (m_data m) = Some conversationId)
                  (filter (\<lambda>m. m_playerId m = playerId
                                \<and> conversationOf (m_data m) \<noteq> None
                                \<and> j_creationTime first < m_creationTime m)
                     (rev (memories db)))
          in Inr (case previousConversationMemory of
                    None \<Rightarrow> 0 | Some m \<Rightarrow> m_creationTime m))"

text \<open>The query \<open>getRecentMessages\<close>. Reading \<open>allMessages[0]._creationTime\<close> when
  \<open>allMessages\<close> is empty throws a TypeError.\<close>

definition getRecentMessages ::
  "message_mapper \<Rightarrow> database \<Rightarrow> id \<Rightarrow> id \<Rightarrow> number option \<Rightarrow> error + message list" where
  "getRecentMessages clientMessage db playerId conversationId lastSpokeTs =
     (let lastConversationMemory = lastConversationMemoryOf db playerId;
          spokeBefore =
            (case lastSpokeTs of
               None \<Rightarrow> False
             | Some t \<Rightarrow>
                 truthy t \<and>
                 num_lt t (Fin (case lastConversationMemory of
                                  None \<Rightarrow> 0 | Some m \<Rightarrow> m_creationTime m)));
          sameConversation =
            (case lastConversationMemory of
               None \<Rightarrow> False
             | Some m \<Rightarrow> conversationOf (m_data m) = Some conversationId)
      in if spokeBefore then Inr []
         else
           let allMessages =
                 filter (\<lambda>j. j_conversationId j = Some conversationId
                             \<and> (case lastConversationMemory of
                                   None \<Rightarrow> True
                                 | Some m \<Rightarrow>
                                     if sameConversation
                                     then m_creationTime m < j_creationTime j else True)
                             \<and> j_type j = ''talking'')
                   (journal db);
               lastMemoryTs =
                 (case lastConversationMemory of
                    None \<Rightarrow> previousMemoryTs db playerId conversationId allMessages
                  | Some m \<Rightarrow>
                      if sameConversation then Inr (m_creationTime m)
                      else previousMemoryTs db playerId conversationId allMessages)
           in case lastMemoryTs of
                Inl e \<Rightarrow> Inl e
              | Inr ts \<Rightarrow>
                  Inr (filter (\<lambda>m. ts < msg_ts m
                                    \<and> (msg_from m = playerId \<or> playerId \<in> set (msg_to m)))
                         (map (clientMessage db) allMessages)))"

definition summaryPrompt :: "string \<Rightarrow> string \<Rightarrow> string" where
  "summaryPrompt playerName playerIdentity =
     ''The following are messages. You are '' @ playerName @ '', and '' @ playerIdentity
       @ [CHR 0x0A]
       @ ''            I would like you to summarize the conversation in a paragraph from your ''
       @ ''perspective. Add if you like or dislike this interaction.''"

definition rememberConversation ::
  "message_mapper \<Rightarrow> (message list \<Rightarrow> string list) \<Rightarrow> embedding_batch \<Rightarrow> chat_completion
     \<Rightarrow> rat \<Rightarrow> string \<Rightarrow> id \<Rightarrow> string \<Rightarrow> id \<Rightarrow> number option \<Rightarrow> world
     \<Rightarrow> (error + bool) \<times> world" where
  "rememberConversation clientMessage chatHistoryFromMessages fetchEmbeddingBatch
       chatGPTCompletion now playerName playerId playerIdentity conversationId lastSpokeTs w =
     (case getRecentMessages clientMessage (w_db w) playerId conversationId lastSpokeTs of
        Inl e \<Rightarrow> (Inl e, w)
      | Inr messages \<Rightarrow>
          if messages = [] then (Inr False, w)
          else
            let description =
                  chatGPTCompletion
                    ([summaryPrompt playerName playerIdentity]
                       @ chatHistoryFromMessages messages @ [''Summary:''])
                    500
            in case addMemories fetchEmbeddingBatch chatGPTCompletion now
                      [\<lparr>n_playerId = playerId, n_description = description,
                        n_data = Conversation conversationId, n_importance = None\<rparr>] w of
                 (Inl e, w') \<Rightarrow> (Inl e, w')
               | (Inr _, w') \<Rightarrow> (Inr True, w'))"

section \<open>Auxiliary definitions for the proofs\<close>

text \<open>The body of \<open>search\<close> after the index query.\<close>

definition hydrated_pairs ::
  "database \<Rightarrow> id \<Rightarrow> candidate list \<Rightarrow> (error + (memory_row \<times> number) list) \<times> database" where
  "hydrated_pairs db playerId results =
     (case asyncMap results (\<lambda>c. getMemoryByEmbeddingId db playerId (c_id c)) of
        Inl e \<Rightarrow> (Inl e, db)
      | Inr mems \<Rightarrow>
          (Inr (map (\<lambda>idx. (mems ! idx, c_score (results ! idx))) [0 ..< length results]), db))"

text \<open>The importance \<open>withImportance\<close> gives a draft.\<close>

definition importanceFor :: "chat_completion \<Rightarrow> new_memory \<Rightarrow> number" where
  "importanceFor chatGPTCompletion d =
     (case n_importance d of
        Some i \<Rightarrow> i
      | None \<Rightarrow> importanceOf (chatGPTCompletion [n_description d, importancePrompt] 1))"

text \<open>The reconciliation in the spec's words (for comparison with \<open>popMisses\<close>): results
  are matched back to the drafts by position, each cache miss taking the next vector the
  provider returned, in order; a miss with no vector left stays without one.\<close>

fun matchByPosition :: "vector option list \<Rightarrow> vector list \<Rightarrow> vector option list" where
  "matchByPosition [] vs = []"
| "matchByPosition (Some cached # cs) vs = Some cached # matchByPosition cs vs"
| "matchByPosition (None # cs) [] = None # matchByPosition cs []"
| "matchByPosition (None # cs) (v # vs) = Some v # matchByPosition cs vs"

section \<open>Example data\<close>

definition fixture_memory :: "id \<Rightarrow> rat \<Rightarrow> memory_row" where
  "fixture_memory i imp =
     \<lparr>m_id = i, m_creationTime = 0, m_playerId = 1, m_description = ''observation'',
      m_embeddingId = i, m_importance = Fin imp, m_data = OtherData ''reflection''\<rparr>"

definition fixture_access :: "id \<Rightarrow> rat \<Rightarrow> access_row" where
  "fixture_access i t = \<lparr>a_id = i, a_creationTime = t, a_memoryId = i\<rparr>"

text \<open>Three memories of player 1, importance 9, 1 and 5, never accessed.\<close>

definition fresh_db :: database where
  "fresh_db =
     \<lparr>embeddings = [],
      memories = [fixture_memory 0 9, fixture_memory 1 1, fixture_memory 2 5],
      memoryAccesses = [], journal = []\<rparr>"

text \<open>The same memories, last accessed at hours 0, 2 and 1.\<close>

definition accessed_db :: database where
  "accessed_db =
     fresh_db\<lparr>memoryAccesses :=
       [fixture_access 0 0, fixture_access 1 (2 * 3600000), fixture_access 2 3600000]\<rparr>"

definition fixture_candidates :: "candidate list" where
  "fixture_candidates =
     [\<lparr>c_id = 0, c_score = Fin (9 / 10)\<rparr>, \<lparr>c_id = 1, c_score = Fin (5 / 10)\<rparr>,
      \<lparr>c_id = 2, c_score = Fin (2 / 10)\<rparr>]"

definition fixture_search :: vector_search where
  "fixture_search q p l = fixture_candidates"

text \<open>An index that also returns the id of an embedding with no memory.\<close>

definition stale_candidate :: candidate where
  "stale_candidate = \<lparr>c_id = 7, c_score = Fin (1 / 2)\<rparr>"

definition stale_search :: vector_search where
  "stale_search q p l = fixture_candidates @ [stale_candidate]"

text \<open>An empty world, and a draft of player 1.\<close>

definition empty_world :: world where
  "empty_world =
     \<lparr>w_db = \<lparr>embeddings = [], memories = [], memoryAccesses = [], journal = []\<rparr>,
      w_upserts = [], w_embedCalls = []\<rparr>"

definition draft :: "string \<Rightarrow> number option \<Rightarrow> new_memory" where
  "draft text imp =
     \<lparr>n_playerId = 1, n_description = text, n_data = OtherData ''reflection'',
      n_importance = imp\<rparr>"

text \<open>A provider that returns one vector per text, one that returns two vectors whatever it
  is given, one that returns a single vector; a model that always answers 7; a mapper that
  copies the fields of the journal entry.\<close>

definition one_per_text :: embedding_batch where
  "one_per_text texts = map (\<lambda>t. [Fin (of_nat (length t))]) texts"

definition two_vectors :: embedding_batch where
  "two_vectors texts = [[Fin 1], [Fin 2]]"

definition one_vector :: embedding_batch where
  "one_vector texts = [[Fin 1]]"

definition answers_7 :: chat_completion where
  "answers_7 messages max_tokens = ''7''"

definition plain_mapper :: message_mapper where
  "plain_mapper db j =
     \<lparr>msg_from = j_playerId j, msg_to = j_audience j, msg_ts = j_ts j,
      msg_content = j_content j\<rparr>"


text \<open>Player 1 has a memory of conversation 3, created at time 100, and said one thing in
  that conversation at time 200.\<close>

definition talk_db :: database where
  "talk_db =
     \<lparr>embeddings = [],
      memories =
        [\<lparr>m_id = 0, m_creationTime = 100, m_playerId = 1, m_description = ''talked'',
          m_embeddingId = 0, m_importance = Fin 5, m_data = Conversation 3\<rparr>],
      memoryAccesses = [],
      journal =
        [\<lparr>j_id = 0, j_creationTime = 200, j_playerId = 1, j_ts = 200, j_type = ''talking'',
          j_conversationId = Some 3, j_audience = [2], j_content = ''hello''\<rparr>]\<rparr>"

section \<open>Properties\<close>

subsection \<open>Numbers\<close>

lemma floor_099: "\<lfloor>99 / 100 :: rat\<rfloor> = 0"
  by (simp add: floor_eq_iff)

lemma bitxor_099: "bitxor (Fin (99 / 100)) (Fin (of_int h)) = Fin (of_int (sint (word_of_int h :: 32 word)))"
  by (simp add: bitxor_def truncate_rat_def floor_099)

lemma isFinite_bitxor: "isFinite (bitxor a b)"
  by (simp add: bitxor_def)

lemma isFinite_recencyOf: "isFinite (recencyOf ts m access)"
  by (simp add: recencyOf_def isFinite_bitxor Let_def)

lemma recencyOf_accessed:
  assumes "0 \<le> h" and "h < 2 ^ 31" and "\<lfloor>(ts - a_creationTime a) / 3600000\<rfloor> = h"
  shows "recencyOf ts m (Some a) = Fin (of_int h)"
proof -
  have "sint (word_of_int h :: 32 word) = h"
    using assms(1,2) by (simp add: signed_of_int signed_take_bit_int_eq_self)
  moreover have "recencyOf ts m (Some a) = Fin (of_int (sint (word_of_int h :: 32 word)))"
    using assms(3) by (simp add: recencyOf_def num_sub_def bitxor_099 del: of_int_sint)
  ultimately show ?thesis by (simp only:)
qed

lemma isFinite_iff: "isFinite v \<longleftrightarrow> (\<exists>a. v = Fin a)"
  by (cases v) simp_all

lemma Math_min_fin:
  assumes "vs \<noteq> []" and "\<forall>v\<in>set vs. isFinite v"
  shows "\<exists>mn. Math_min vs = Fin mn \<and> Fin mn \<in> set vs \<and> (\<forall>a. Fin a \<in> set vs \<longrightarrow> mn \<le> a)"
  using assms
proof (induction vs)
  case Nil
  then show ?case by simp
next
  case (Cons v vs)
  from Cons.prems obtain a where v: "v = Fin a" by (auto simp: isFinite_iff)
  show ?case
  proof (cases "vs = []")
    case True
    then show ?thesis using v by (simp add: Math_min_def)
  next
    case False
    with Cons obtain mn where mn: "Math_min vs = Fin mn" "Fin mn \<in> set vs"
      "\<forall>a. Fin a \<in> set vs \<longrightarrow> mn \<le> a" by auto
    have "Math_min (v # vs) = min2 (Fin a) (Fin mn)"
      using mn(1) v by (simp add: Math_min_def)
    then show ?thesis using mn v by (auto intro: order_trans)
  qed
qed

lemma Math_max_fin:
  assumes "vs \<noteq> []" and "\<forall>v\<in>set vs. isFinite v"
  shows "\<exists>mx. Math_max vs = Fin mx \<and> Fin mx \<in> set vs \<and> (\<forall>a. Fin a \<in> set vs \<longrightarrow> a \<le> mx)"
  using assms
proof (induction vs)
  case Nil
  then show ?case by simp
next
  case (Cons v vs)
  from Cons.prems obtain a where v: "v = Fin a" by (auto simp: isFinite_iff)
  show ?case
  proof (cases "vs = []")
    case True
    then show ?thesis using v by (simp add: Math_max_def)
  next
    case False
    with Cons obtain mx where mx: "Math_max vs = Fin mx" "Fin mx \<in> set vs"
      "\<forall>a. Fin a \<in> set vs \<longrightarrow> a \<le> mx" by auto
    have "Math_max (v # vs) = max2 (Fin a) (Fin mx)"
      using mx(1) v by (simp add: Math_max_def)
    then show ?thesis using mx v by (auto intro: order_trans)
  qed
qed

text \<open>On finite values, one of which is \<open>v\<close>: NaN when the range is a point, a finite
  number otherwise.\<close>

lemma normalize_fin:
  assumes "v \<in> set vs" and "\<forall>v\<in>set vs. isFinite v"
  shows "normalize v (makeRange vs) =
           (if Math_min vs = Math_max vs then NaN
            else num_div (num_sub v (Math_min vs)) (num_sub (Math_max vs) (Math_min vs)))
         \<and> (Math_min vs \<noteq> Math_max vs \<longrightarrow> isFinite (normalize v (makeRange vs)))"
proof -
  have ne: "vs \<noteq> []" using assms(1) by auto
  obtain mn where mn: "Math_min vs = Fin mn" "\<forall>a. Fin a \<in> set vs \<longrightarrow> mn \<le> a"
    using Math_min_fin [OF ne assms(2)] by blast
  obtain mx where mx: "Math_max vs = Fin mx" "\<forall>a. Fin a \<in> set vs \<longrightarrow> a \<le> mx"
    using Math_max_fin [OF ne assms(2)] by blast
  obtain a where a: "v = Fin a" using assms by (auto simp: isFinite_iff)
  have "mn \<le> a" "a \<le> mx" using mn(2) mx(2) assms(1) a by auto
  then show ?thesis
    using mn(1) mx(1) a by (auto simp: normalize_def makeRange_def num_sub_def)
qed

subsection \<open>Sorting\<close>







lemma cmp_sign_fin: "cmp_sign (num_sub (Fin b) (Fin a)) \<le> 0 \<longleftrightarrow> b \<le> a"
  by (auto simp: num_sub_def sgn_if)








subsection \<open>Hydration\<close>

lemma asyncMap_Inr_iff: "asyncMap xs f = Inr ys \<longleftrightarrow> map f xs = map Inr ys"
proof (induction xs arbitrary: ys)
  case Nil
  then show ?case by auto
next
  case (Cons x xs)
  show ?case
  proof (cases "f x")
    case (Inl e)
    then show ?thesis by auto
  next
    case (Inr y)
    show ?thesis
    proof (cases ys)
      case Nil
      then show ?thesis using Inr by (simp split: sum.splits)
    next
      case (Cons y' ys')
      have "asyncMap (x # xs) f = Inr (y' # ys') \<longleftrightarrow> y = y' \<and> asyncMap xs f = Inr ys'"
        using Inr by (auto split: sum.splits)
      then show ?thesis using Cons Inr Cons.IH [of ys'] by simp
    qed
  qed
qed

lemma asyncMap_map: "asyncMap (map g xs) f = asyncMap xs (\<lambda>x. f (g x))"
  by (induction xs) (simp_all split: sum.splits)

lemma asyncMap_total:
  "\<forall>x\<in>set xs. \<exists>y. f x = Inr y \<Longrightarrow> \<exists>ys. asyncMap xs f = Inr ys"
proof (induction xs)
  case Nil
  then show ?case by simp
next
  case (Cons x xs)
  then obtain y ys where "f x = Inr y" "asyncMap xs f = Inr ys" by auto
  then show ?case by simp
qed

lemma asyncMap_fails:
  "x \<in> set xs \<Longrightarrow> f x = Inl e \<Longrightarrow> \<exists>x'\<in>set xs. \<exists>e'. f x' = Inl e' \<and> asyncMap xs f = Inl e'"
proof (induction xs)
  case Nil
  then show ?case by simp
next
  case (Cons a xs)
  show ?case
  proof (cases "f a")
    case (Inl e0)
    then show ?thesis by auto
  next
    case (Inr y)
    with Cons.prems have "x \<in> set xs" by auto
    with Cons obtain x' e' where "x' \<in> set xs" "f x' = Inl e'" "asyncMap xs f = Inl e'"
      by blast
    then show ?thesis using Inr by auto
  qed
qed

lemma find_Some_set: "find P xs = Some x \<Longrightarrow> x \<in> set xs \<and> P x"
  by (induction xs) (auto split: if_splits)

lemma getMemoryByEmbeddingId_Inr:
  "getMemoryByEmbeddingId db p i = Inr m \<Longrightarrow>
     m \<in> set (memories db) \<and> m_playerId m = p \<and> m_embeddingId m = i"
  by (auto simp: getMemoryByEmbeddingId_def split: option.splits dest: find_Some_set)

lemma getMemoryByEmbeddingId_Inl:
  "getMemoryByEmbeddingId db p i = Inl e \<longleftrightarrow>
     e = NoMemoryFound p i \<and> \<not> (\<exists>m\<in>set (memories db). m_playerId m = p \<and> m_embeddingId m = i)"
proof (cases "find (\<lambda>m. m_playerId m = p \<and> m_embeddingId m = i) (rev (memories db))")
  case None
  then have "\<not> (\<exists>m\<in>set (memories db). m_playerId m = p \<and> m_embeddingId m = i)"
    by (auto simp: find_None_iff)
  moreover have "getMemoryByEmbeddingId db p i = Inl (NoMemoryFound p i)"
    using None by (simp add: getMemoryByEmbeddingId_def)
  ultimately show ?thesis by auto
next
  case (Some m)
  then have "m \<in> set (memories db) \<and> m_playerId m = p \<and> m_embeddingId m = i"
    using find_Some_set [OF Some] by simp
  then show ?thesis using Some by (auto simp: getMemoryByEmbeddingId_def)
qed

lemma getMemoryByEmbeddingId_found:
  "\<exists>m\<in>set (memories db). m_playerId m = p \<and> m_embeddingId m = i \<Longrightarrow>
     \<exists>m. getMemoryByEmbeddingId db p i = Inr m"
  using getMemoryByEmbeddingId_Inl [of db p i] by (cases "getMemoryByEmbeddingId db p i") auto

lemma hydrate_Inr:
  assumes "asyncMap cs (\<lambda>c. getMemoryByEmbeddingId db p (c_id c)) = Inr ms"
  shows "length ms = length cs"
    and "map m_embeddingId ms = map c_id cs"
    and "\<forall>m\<in>set ms. m \<in> set (memories db) \<and> m_playerId m = p"
proof -
  have eq: "map (\<lambda>c. getMemoryByEmbeddingId db p (c_id c)) cs = map Inr ms"
    using assms by (simp add: asyncMap_Inr_iff)
  then show len: "length ms = length cs" by (metis length_map)
  have nth: "getMemoryByEmbeddingId db p (c_id (cs ! i)) = Inr (ms ! i)" if "i < length cs" for i
    using that len arg_cong [OF eq, of "\<lambda>l. l ! i"] by simp
  show "map m_embeddingId ms = map c_id cs"
    using len nth by (auto simp: list_eq_iff_nth_eq dest: getMemoryByEmbeddingId_Inr)
  show "\<forall>m\<in>set ms. m \<in> set (memories db) \<and> m_playerId m = p"
  proof
    fix m assume "m \<in> set ms"
    then obtain i where "i < length cs" "m = ms ! i" using len by (auto simp: in_set_conv_nth)
    then show "m \<in> set (memories db) \<and> m_playerId m = p"
      using nth [of i] getMemoryByEmbeddingId_Inr by blast
  qed
qed

subsection \<open>Scores\<close>

lemma num_add_NaN_right: "num_add a NaN = NaN"
  by (cases a) simp_all

lemma num_add_fin: "isFinite a \<Longrightarrow> isFinite b \<Longrightarrow> isFinite (num_add a b)"
  by (auto simp: isFinite_iff)

lemma map_memory_memoryScores:
  "map memory (memoryScores candidates related recency) = related"
  by (simp add: memoryScores_def Let_def o_def map_nth)

lemma length_memoryScores:
  "length (memoryScores candidates related recency) = length related"
  by (simp add: memoryScores_def Let_def)

lemma memoryScores_all_fin_or_all_NaN:
  assumes len: "length candidates = length related" "length recency = length related"
    and fin: "\<forall>c\<in>set candidates. isFinite (c_score c)"
      "\<forall>m\<in>set related. isFinite (m_importance m)"
      "\<forall>r\<in>set recency. isFinite r"
  shows "(\<forall>s\<in>set (memoryScores candidates related recency). isFinite (overallScore s))
       \<or> (\<forall>s\<in>set (memoryScores candidates related recency). overallScore s = NaN)"
proof -
  let ?rel = "map c_score candidates"
  let ?imp = "map m_importance related"
  have frel: "\<forall>v\<in>set ?rel. isFinite v" and fimp: "\<forall>v\<in>set ?imp. isFinite v"
    using fin by auto
  have score: "overallScore (memoryScores candidates related recency ! idx) =
      num_add (num_add (normalize (?rel ! idx) (makeRange ?rel))
                 (normalize (?imp ! idx) (makeRange ?imp)))
        (normalize (recency ! idx) (makeRange recency))"
    if "idx < length related" for idx
    using that len by (simp add: memoryScores_def Let_def)
  show ?thesis
  proof (cases "Math_min ?rel = Math_max ?rel \<or> Math_min ?imp = Math_max ?imp
                \<or> Math_min recency = Math_max recency")
    case True
    have "overallScore (memoryScores candidates related recency ! idx) = NaN"
      if "idx < length related" for idx
    proof -
      have "?rel ! idx \<in> set ?rel" "?imp ! idx \<in> set ?imp" "recency ! idx \<in> set recency"
        using that len by (auto intro: nth_mem)
      then show ?thesis
        using True normalize_fin [OF _ frel] normalize_fin [OF _ fimp] normalize_fin [OF _ fin(3)]
        by (auto simp: score [OF that] num_add_NaN_right)
    qed
    then show ?thesis
      by (auto simp: in_set_conv_nth length_memoryScores)
  next
    case False
    have "isFinite (overallScore (memoryScores candidates related recency ! idx))"
      if "idx < length related" for idx
    proof -
      have "?rel ! idx \<in> set ?rel" "?imp ! idx \<in> set ?imp" "recency ! idx \<in> set recency"
        using that len by (auto intro: nth_mem)
      then have "isFinite (normalize (?rel ! idx) (makeRange ?rel))"
        "isFinite (normalize (?imp ! idx) (makeRange ?imp))"
        "isFinite (normalize (recency ! idx) (makeRange recency))"
        using False normalize_fin [OF _ frel] normalize_fin [OF _ fimp] normalize_fin [OF _ fin(3)]
        by blast+
      then show ?thesis by (simp add: score [OF that] num_add_fin)
    qed
    then show ?thesis
      by (auto simp: in_set_conv_nth length_memoryScores)
  qed
qed

subsection \<open>Access rows\<close>





subsection \<open>Ranked retrieval: claims C5, C9 and C10\<close>

lemma accessMemories_fl_exact:
  "accessMemories_fl exact_arith ts playerId candidates k db
     = accessMemories ts playerId candidates k db"
proof -
  have n: "normalize_fl exact_arith = normalize"
    by (intro ext) (simp add: normalize_fl_def normalize_def exact_arith_def)
  have r: "recencyScore_fl exact_arith = recencyScore"
    by (intro ext)
      (simp add: recencyScore_fl_def recencyScore_def recencyOf_fl_def recencyOf_def
        exact_arith_def)
  have m: "memoryScores_fl exact_arith = memoryScores"
    unfolding memoryScores_fl_def memoryScores_def n by (simp add: exact_arith_def)
  have e: "fl_sub exact_arith = num_sub" by (simp add: exact_arith_def)
  show ?thesis
    unfolding accessMemories_fl_def accessMemories_def r m e by (rule refl)
qed




lemma accessMemories_example:
  "map_sum id (\<lambda>(accessed, db'). (map (\<lambda>x. (m_id (memory x), overallScore x)) accessed,
       map a_memoryId (memoryAccesses db')))
     (accessMemories (3 * 3600000) 1 fixture_candidates 2 accessed_db)
   = Inr ([(0, Fin 3), (2, Fin 1)], [0, 1, 2, 0, 2])"
  by code_simp

lemma map_pair_nth:
  "length ms = length cs \<Longrightarrow>
     map (\<lambda>idx. (ms ! idx, f (cs ! idx))) [0 ..< length cs] = zip ms (map f cs)"
  by (rule nth_equalityI) simp_all

lemma search_hydrated_pairs:
  "search vectorSearch playerId q lmt db =
     hydrated_pairs db playerId
       (vectorSearch q playerId (case lmt of None \<Rightarrow> 100 | Some l \<Rightarrow> l))"
  by (simp add: search_def hydrated_pairs_def Let_def getMemories_def asyncMap_map)

lemma hydrated_pairs_props:
  "snd (hydrated_pairs db playerId results) = db
   \<and> (\<forall>rs. fst (hydrated_pairs db playerId results) = Inr rs \<longrightarrow>
         map snd rs = map c_score results
       \<and> map (\<lambda>r. m_embeddingId (fst r)) rs = map c_id results
       \<and> (\<forall>r\<in>set rs. fst r \<in> set (memories db) \<and> m_playerId (fst r) = playerId))
   \<and> ((\<forall>c\<in>set results.
          \<exists>m\<in>set (memories db). m_playerId m = playerId \<and> m_embeddingId m = c_id c) \<longrightarrow>
       (\<exists>rs. fst (hydrated_pairs db playerId results) = Inr rs))"
proof (cases "asyncMap results (\<lambda>c. getMemoryByEmbeddingId db playerId (c_id c))")
  case (Inl e)
  have "\<not> (\<forall>c\<in>set results.
        \<exists>m\<in>set (memories db). m_playerId m = playerId \<and> m_embeddingId m = c_id c)"
  proof
    assume "\<forall>c\<in>set results.
        \<exists>m\<in>set (memories db). m_playerId m = playerId \<and> m_embeddingId m = c_id c"
    then have "\<exists>ys. asyncMap results (\<lambda>c. getMemoryByEmbeddingId db playerId (c_id c)) = Inr ys"
      using asyncMap_total [of results "\<lambda>c. getMemoryByEmbeddingId db playerId (c_id c)"]
        getMemoryByEmbeddingId_found by blast
    then show False using Inl by simp
  qed
  then show ?thesis using Inl by (simp add: hydrated_pairs_def)
next
  case (Inr mems)
  note h = hydrate_Inr [OF Inr]
  define rs where "rs = zip mems (map c_score results)"
  have r: "hydrated_pairs db playerId results = (Inr rs, db)"
    using Inr h(1) by (simp add: hydrated_pairs_def map_pair_nth rs_def)
  have len: "length mems = length (map c_score results)" using h(1) by simp
  have snd_rs: "map snd rs = map c_score results"
    unfolding rs_def using len by (rule map_snd_zip)
  have fst_rs: "map fst rs = mems"
    unfolding rs_def using len by (rule map_fst_zip)
  have "map (\<lambda>r. m_embeddingId (fst r)) rs = map m_embeddingId (map fst rs)"
    by (simp add: o_def)
  then have ids: "map (\<lambda>r. m_embeddingId (fst r)) rs = map c_id results"
    using h(2) fst_rs by simp
  have mem: "\<forall>r\<in>set rs. fst r \<in> set (memories db) \<and> m_playerId (fst r) = playerId"
  proof
    fix r assume "r \<in> set rs"
    then have "fst r \<in> set (map fst rs)" by (simp del: map_map)
    then have "fst r \<in> set mems" by (simp only: fst_rs)
    then show "fst r \<in> set (memories db) \<and> m_playerId (fst r) = playerId"
      using h(3) by blast
  qed
  show ?thesis using snd_rs ids mem by (simp add: r)
qed

text \<open>
  Claim C9. \<open>search\<close> writes no row: the database after the call is the database before
  it, whether the call returns or throws. When it returns, the pairs are in the order of the
  index's matches, each with the index's score unchanged and the memory of that match's
  embedding id, a stored memory of the agent. It returns whenever every match has a memory.
\<close>

theorem search_is_read_only:
  "snd (search vectorSearch playerId q lmt db) = db
   \<and> (\<forall>rs. fst (search vectorSearch playerId q lmt db) = Inr rs \<longrightarrow>
         map snd rs = map c_score (vectorSearch q playerId (case lmt of None \<Rightarrow> 100 | Some l \<Rightarrow> l))
       \<and> map (\<lambda>r. m_embeddingId (fst r)) rs
           = map c_id (vectorSearch q playerId (case lmt of None \<Rightarrow> 100 | Some l \<Rightarrow> l))
       \<and> (\<forall>r\<in>set rs. fst r \<in> set (memories db) \<and> m_playerId (fst r) = playerId))
   \<and> ((\<forall>c\<in>set (vectorSearch q playerId (case lmt of None \<Rightarrow> 100 | Some l \<Rightarrow> l)).
          \<exists>m\<in>set (memories db). m_playerId m = playerId \<and> m_embeddingId m = c_id c) \<longrightarrow>
       (\<exists>rs. fst (search vectorSearch playerId q lmt db) = Inr rs))"
  unfolding search_hydrated_pairs by (rule hydrated_pairs_props)

theorem search_is_read_only_witness:
  "list_all (\<lambda>c. list_ex (\<lambda>m. m_playerId m = 1 \<and> m_embeddingId m = c_id c)
                       (memories fresh_db)) (fixture_search [] 1 100)
   \<and> snd (search fixture_search 1 [] None fresh_db) = fresh_db
   \<and> (\<exists>rs. fst (search fixture_search 1 [] None fresh_db) = Inr rs
         \<and> map snd rs = [Fin (9 / 10), Fin (5 / 10), Fin (2 / 10)]
         \<and> map (\<lambda>r. m_embeddingId (fst r)) rs = [0, 1, 2])"
proof -
  have h: "\<forall>c\<in>set (fixture_search [] 1 100).
      \<exists>m\<in>set (memories fresh_db). m_playerId m = 1 \<and> m_embeddingId m = c_id c"
    by (simp add: fixture_search_def fixture_candidates_def fresh_db_def fixture_memory_def)
  note t = search_is_read_only [of fixture_search 1 "[]" None fresh_db, unfolded option.case]
  from t h obtain rs where rs: "fst (search fixture_search 1 [] None fresh_db) = Inr rs"
    by blast
  with t have "map snd rs = map c_score (fixture_search [] 1 100)"
    "map (\<lambda>r. m_embeddingId (fst r)) rs = map c_id (fixture_search [] 1 100)"
    by blast+
  then have maps: "map snd rs = [Fin (9 / 10), Fin (5 / 10), Fin (2 / 10)]"
    "map (\<lambda>r. m_embeddingId (fst r)) rs = [0, 1, 2]"
    by (simp_all only: fixture_search_def fixture_candidates_def list.map candidate.simps)
  have frame: "snd (search fixture_search 1 [] None fresh_db) = fresh_db"
    using t by (rule conjunct1)
  have "\<exists>rs. fst (search fixture_search 1 [] None fresh_db) = Inr rs
         \<and> map snd rs = [Fin (9 / 10), Fin (5 / 10), Fin (2 / 10)]
         \<and> map (\<lambda>r. m_embeddingId (fst r)) rs = [0, 1, 2]"
    using rs maps by (intro exI [of _ rs] conjI)
  moreover have "list_all (\<lambda>c. list_ex (\<lambda>m. m_playerId m = 1 \<and> m_embeddingId m = c_id c)
                       (memories fresh_db)) (fixture_search [] 1 100)"
    using h by (simp add: list_all_iff list_ex_iff)
  ultimately show ?thesis using frame by (intro conjI)
qed

text \<open>
  Claim C10. If an embedding id returned by the vector index has no stored memory for the
  agent, then the mutation \<open>accessMemories\<close>, \<open>MemoryDB.accessMemories\<close> and \<open>search\<close>
  throw \<open>No memory found\<close> for a candidate id and return no result; the database is
  unchanged.
\<close>

theorem missing_memory_fails:
  assumes "\<not> (\<exists>m\<in>set (memories db). m_playerId m = playerId \<and> m_embeddingId m = c_id c)"
  shows "(c \<in> set candidates \<longrightarrow>
           (\<exists>i. accessMemories ts playerId candidates k db = Inl (NoMemoryFound playerId i)))
       \<and> (c \<in> set (vectorSearch q playerId (10 * (case k_opt of None \<Rightarrow> 10 | Some n \<Rightarrow> n))) \<longrightarrow>
           (\<exists>i. MemoryDB_accessMemories vectorSearch ts playerId q k_opt db
                  = (Inl (NoMemoryFound playerId i), db)))
       \<and> (c \<in> set (vectorSearch q playerId (case lmt of None \<Rightarrow> 100 | Some l \<Rightarrow> l)) \<longrightarrow>
           (\<exists>i. search vectorSearch playerId q lmt db = (Inl (NoMemoryFound playerId i), db)))"
proof -
  have miss: "getMemoryByEmbeddingId db playerId (c_id c) = Inl (NoMemoryFound playerId (c_id c))"
    using assms by (simp add: getMemoryByEmbeddingId_Inl)
  have hyd: "\<exists>i. asyncMap cs (\<lambda>c. getMemoryByEmbeddingId db playerId (c_id c))
                 = Inl (NoMemoryFound playerId i)" if "c \<in> set cs" for cs
  proof -
    have "\<exists>c'\<in>set cs. \<exists>e'. getMemoryByEmbeddingId db playerId (c_id c') = Inl e'
            \<and> asyncMap cs (\<lambda>c. getMemoryByEmbeddingId db playerId (c_id c)) = Inl e'"
      by (rule asyncMap_fails [of c cs "\<lambda>c. getMemoryByEmbeddingId db playerId (c_id c)",
            OF that miss])
    then show ?thesis by (metis getMemoryByEmbeddingId_Inl)
  qed
  have a: "\<exists>i. accessMemories ts playerId cs n db = Inl (NoMemoryFound playerId i)"
    if "c \<in> set cs" for cs n
    using hyd [OF that] by (auto simp: accessMemories_def)
  have b: "\<exists>i. MemoryDB_accessMemories vectorSearch ts playerId q k_opt db
                  = (Inl (NoMemoryFound playerId i), db)"
    if "c \<in> set (vectorSearch q playerId (10 * (case k_opt of None \<Rightarrow> 10 | Some n \<Rightarrow> n)))"
  proof -
    from a [OF that, of "case k_opt of None \<Rightarrow> 10 | Some n \<Rightarrow> n"] obtain i where
      "accessMemories ts playerId
         (vectorSearch q playerId (10 * (case k_opt of None \<Rightarrow> 10 | Some n \<Rightarrow> n)))
         (case k_opt of None \<Rightarrow> 10 | Some n \<Rightarrow> n) db = Inl (NoMemoryFound playerId i)" ..
    then show ?thesis by (simp add: MemoryDB_accessMemories_def Let_def)
  qed
  have s: "\<exists>i. search vectorSearch playerId q lmt db = (Inl (NoMemoryFound playerId i), db)"
    if "c \<in> set (vectorSearch q playerId (case lmt of None \<Rightarrow> 100 | Some l \<Rightarrow> l))"
    using hyd [OF that] by (auto simp: search_hydrated_pairs hydrated_pairs_def)
  show ?thesis using a b s by blast
qed

theorem missing_memory_fails_witness:
  "\<not> (\<exists>m\<in>set (memories fresh_db). m_playerId m = 1 \<and> m_embeddingId m = c_id stale_candidate)
   \<and> stale_candidate \<in> set (fixture_candidates @ [stale_candidate])
   \<and> stale_candidate \<in> set (stale_search [] 1 (10 * 10))
   \<and> stale_candidate \<in> set (stale_search [] 1 100)
   \<and> (\<exists>i. accessMemories 0 1 (fixture_candidates @ [stale_candidate]) 10 fresh_db
            = Inl (NoMemoryFound 1 i))
   \<and> (\<exists>i. MemoryDB_accessMemories stale_search 0 1 [] None fresh_db
            = (Inl (NoMemoryFound 1 i), fresh_db))
   \<and> (\<exists>i. search stale_search 1 [] None fresh_db = (Inl (NoMemoryFound 1 i), fresh_db))"
proof -
  have h: "\<not> (\<exists>m\<in>set (memories fresh_db).
              m_playerId m = 1 \<and> m_embeddingId m = c_id stale_candidate)"
    by (simp add: fresh_db_def fixture_memory_def stale_candidate_def)
  have m: "stale_candidate \<in> set (fixture_candidates @ [stale_candidate])"
    "stale_candidate \<in> set (stale_search [] 1 (10 * 10))"
    "stale_candidate \<in> set (stale_search [] 1 100)"
    by (simp_all add: stale_search_def)
  show ?thesis
    using h m
      missing_memory_fails [OF h, of "fixture_candidates @ [stale_candidate]" 0 10
        stale_search "[]" None None]
    by simp
qed

subsection \<open>Recency and normalization: claims C1 and C2\<close>

text \<open>
  Claim C1. The recency signal should decrease strictly with the whole hours elapsed since
  the last access, as \<open>0.99\<close> to the power of the hours, and be measured from the memory's
  creation when there is no access.

  The code computes \<open>0.99 ^ hours\<close>, which is exclusive or: at 1, 2 and 3 hours since the
  last access the signal is 1, 2 and 3 (it grows), and for a memory never accessed it is 1
  whatever the time since its creation.
\<close>

theorem recency_grows_with_elapsed_hours:
  "recencyOf (3 * 3600000) (fixture_memory 0 9) (Some (fixture_access 0 (2 * 3600000))) = Fin 1
   \<and> recencyOf (3 * 3600000) (fixture_memory 0 9) (Some (fixture_access 0 3600000)) = Fin 2
   \<and> recencyOf (3 * 3600000) (fixture_memory 0 9) (Some (fixture_access 0 0)) = Fin 3
   \<and> recencyOf (1000 * 3600000) (fixture_memory 0 9) None = Fin 1
   \<and> recencyScore accessed_db (3 * 3600000) (memories accessed_db) = [Fin 3, Fin 1, Fin 2]"
  by (simp add: recencyOf_def recencyScore_def lastAccess_def accessed_db_def fresh_db_def
      fixture_memory_def fixture_access_def num_sub_def bitxor_def truncate_rat_def floor_099)

text \<open>
  Claim C2. Each signal is normalized as \<open>(value - min) / (max - min)\<close>, and should be 0
  when \<open>max = min\<close>.

  The code divides without a guard: on a tie the quotient is \<open>0 / 0\<close>, NaN. Three memories
  never accessed all have recency 1, and every composite score is NaN.
\<close>

theorem normalize_tie_is_NaN:
  "normalize (Fin 5) (makeRange [Fin 5, Fin 5]) = NaN
   \<and> normalize (Fin 5) (makeRange [Fin 5]) = NaN
   \<and> map_sum id (\<lambda>r. map overallScore (fst r))
         (accessMemories (3 * 3600000) 1 fixture_candidates 2 fresh_db) = Inr [NaN, NaN]"
  by code_simp

subsection \<open>Importance: claim C3\<close>

text \<open>
  Claim C3. For a draft with no importance, the stored importance should be the first digit
  of the answer, the numeric parse of the whole answer only when there is no digit, and 5
  only when that fails too.

  The code overwrites the digit it found with \<open>parseFloat\<close> of the whole answer: the answer
  \<open>12\<close> gives 12 (first digit 1), the answer \<open>a7\<close> gives 5 (first digit 7).
\<close>

theorem importance_ignores_first_digit:
  "firstDigit ''12'' NaN = Fin 1 \<and> importanceOf ''12'' = Fin 12
   \<and> firstDigit ''a7'' NaN = Fin 7 \<and> importanceOf ''a7'' = Fin 5"
  by code_simp

subsection \<open>Ingestion: claims C4, C6 and C7\<close>

lemma popMisses_rev: "popMisses cs (rev vs) = matchByPosition cs vs"
  by (induction cs vs rule: matchByPosition.induct) simp_all

lemma length_matchByPosition: "length (matchByPosition cs vs) = length cs"
  by (induction cs vs rule: matchByPosition.induct) simp_all

lemma matchByPosition_enough:
  "length (filter (\<lambda>c. c = None) cs) \<le> length vs \<Longrightarrow> None \<notin> set (matchByPosition cs vs)"
  by (induction cs vs rule: matchByPosition.induct) simp_all

lemma matchByPosition_short:
  "length vs < length (filter (\<lambda>c. c = None) cs) \<Longrightarrow> None \<in> set (matchByPosition cs vs)"
  by (induction cs vs rule: matchByPosition.induct) simp_all

lemma filter_indices:
  "map (\<lambda>idx. f (xs ! idx)) (filter (\<lambda>idx. P (ys ! idx)) [0 ..< length xs])
     = map (\<lambda>p. f (fst p)) (filter (\<lambda>p. P (snd p)) (zip xs ys))"
  if "length ys = length xs"
proof -
  have z: "zip xs ys = map (\<lambda>idx. (xs ! idx, ys ! idx)) [0 ..< length xs]"
    using that by (intro nth_equalityI) simp_all
  show ?thesis
    unfolding z by (simp add: filter_map o_def)
qed

lemma cacheMissesOf_filter:
  "cacheMissesOf drafts (checkEmbeddingCache db (map n_description drafts))
     = filter (\<lambda>t. find (\<lambda>e. e_text e = t) (embeddings db) = None) (map n_description drafts)"
proof -
  let ?hit = "\<lambda>t. case find (\<lambda>e. e_text e = t) (embeddings db) of
                     Some existing \<Rightarrow> Some (e_embedding existing) | None \<Rightarrow> None"
  have c: "checkEmbeddingCache db (map n_description drafts) = map (\<lambda>d. ?hit (n_description d)) drafts"
    by (simp add: checkEmbeddingCache_def o_def)
  have "cacheMissesOf drafts (map (\<lambda>d. ?hit (n_description d)) drafts)
      = map (\<lambda>p. n_description (fst p))
          (filter (\<lambda>p. snd p = None) (zip drafts (map (\<lambda>d. ?hit (n_description d)) drafts)))"
    unfolding cacheMissesOf_def by (rule filter_indices) simp
  also have "\<dots> = filter (\<lambda>t. find (\<lambda>e. e_text e = t) (embeddings db) = None)
                     (map n_description drafts)"
    by (induction drafts) (auto split: option.splits)
  finally show ?thesis by (simp only: c)
qed

lemma length_cacheMissesOf:
  "length (cacheMissesOf drafts cached) = length (filter (\<lambda>c. c = None) cached)"
  if "length cached = length drafts"
proof -
  have "cacheMissesOf drafts cached
      = map (\<lambda>p. n_description (fst p)) (filter (\<lambda>p. snd p = None) (zip drafts cached))"
    unfolding cacheMissesOf_def using that by (rule filter_indices)
  moreover have "length (filter (\<lambda>p. snd p = None) (zip drafts cached))
      = length (filter (\<lambda>c. c = None) cached)"
    using that by (induction drafts cached rule: list_induct2') auto
  ultimately show ?thesis by simp
qed


lemma validateArgs_fail:
  "None \<in> set (map an_embedding as) \<Longrightarrow> validateArgs as = Inl ArgumentValidationError"
  by (induction as) (auto split: option.splits sum.splits)

lemma validateArgs_ok:
  "None \<notin> set (map an_embedding as) \<Longrightarrow>
     \<exists>vs. validateArgs as = Inr vs
        \<and> map (\<lambda>v. Some (v_embedding v)) vs = map an_embedding as
        \<and> map v_importance vs = map an_importance as
        \<and> map v_description vs = map an_description as
        \<and> map v_playerId vs = map an_playerId as"
proof (induction as)
  case Nil
  then show ?case by simp
next
  case (Cons a as)
  then obtain vs where vs: "validateArgs as = Inr vs"
    "map (\<lambda>v. Some (v_embedding v)) vs = map an_embedding as"
    "map v_importance vs = map an_importance as"
    "map v_description vs = map an_description as"
    "map v_playerId vs = map an_playerId as" by auto
  from Cons.prems obtain e where e: "an_embedding a = Some e" by (cases "an_embedding a") auto
  show ?case using vs e by simp
qed

lemma insertMemories_rows:
  "insertMemories now vs db = (ids, db') \<Longrightarrow>
     \<exists>es ms. embeddings db' = embeddings db @ es \<and> memories db' = memories db @ ms
        \<and> map e_embedding es = map v_embedding vs
        \<and> map e_text es = map v_description vs
        \<and> map m_importance ms = map v_importance vs
        \<and> map m_description ms = map v_description vs
        \<and> map m_embeddingId ms = ids \<and> map e_id es = ids
        \<and> memoryAccesses db' = memoryAccesses db \<and> journal db' = journal db"
proof (induction vs arbitrary: db ids db')
  case Nil
  then show ?case by simp
next
  case (Cons v vs)
  let ?e = "\<lparr>e_id = length (embeddings db), e_creationTime = now, e_playerId = v_playerId v,
             e_embedding = v_embedding v, e_text = v_description v\<rparr>"
  let ?m = "\<lparr>m_id = length (memories db), m_creationTime = now,
             m_playerId = v_playerId v, m_description = v_description v,
             m_embeddingId = length (embeddings db), m_importance = v_importance v,
             m_data = v_data v\<rparr>"
  let ?db2 = "db\<lparr>embeddings := embeddings db @ [?e], memories := memories db @ [?m]\<rparr>"
  obtain ids2 db3 where rec: "insertMemories now vs ?db2 = (ids2, db3)"
    by (cases "insertMemories now vs ?db2") auto
  have out: "ids = length (embeddings db) # ids2" "db' = db3"
    using Cons.prems rec by (simp_all add: Let_def)
  from Cons.IH [OF rec] obtain es ms where r:
    "embeddings db3 = embeddings ?db2 @ es" "memories db3 = memories ?db2 @ ms"
    "map e_embedding es = map v_embedding vs" "map e_text es = map v_description vs"
    "map m_importance ms = map v_importance vs" "map m_description ms = map v_description vs"
    "map m_embeddingId ms = ids2" "map e_id es = ids2"
    "memoryAccesses db3 = memoryAccesses ?db2" "journal db3 = journal ?db2" by blast
  show ?case
    using r out by (intro exI [of _ "?e # es"] exI [of _ "?m # ms"]) simp
qed

lemma withImportance_fields:
  "an_embedding (withImportance chat d e) = e"
  "an_importance (withImportance chat d e) = importanceFor chat d"
  "an_description (withImportance chat d e) = n_description d"
  "an_playerId (withImportance chat d e) = n_playerId d"
  by (simp_all add: withImportance_def importanceFor_def Let_def split: option.splits)

lemma annotated_maps:
  fixes chat :: chat_completion and drafts :: "new_memory list" and embs :: "vector option list"
  assumes "length embs = length drafts"
  defines "mems \<equiv> map (\<lambda>idx. withImportance chat (drafts ! idx) (embs ! idx))
                    [0 ..< length drafts]"
  shows "map an_embedding mems = embs"
    and "map an_importance mems = map (importanceFor chat) drafts"
    and "map an_description mems = map n_description drafts"
proof -
  show "map an_embedding mems = embs"
    using assms(1) by (intro nth_equalityI) (simp_all add: mems_def withImportance_fields)
  show "map an_importance mems = map (importanceFor chat) drafts"
    by (intro nth_equalityI) (simp_all add: mems_def withImportance_fields)
  show "map an_description mems = map n_description drafts"
    by (intro nth_equalityI) (simp_all add: mems_def withImportance_fields)
qed

text \<open>What \<open>addMemories\<close> does, by whether every draft got an embedding.\<close>

lemma addMemories_cases:
  fixes fetch :: embedding_batch and chat :: chat_completion and now :: rat
    and drafts :: "new_memory list" and w :: world
  defines "cached \<equiv> checkEmbeddingCache (w_db w) (map n_description drafts)"
  defines "misses \<equiv> cacheMissesOf drafts cached"
  defines "returned \<equiv> if misses \<noteq> [] then fetch misses else []"
  defines "w1 \<equiv> if misses \<noteq> [] then w\<lparr>w_embedCalls := w_embedCalls w @ [misses]\<rparr> else w"
  shows "length returned < length misses \<Longrightarrow>
           addMemories fetch chat now drafts w = (Inl ArgumentValidationError, w1)"
    and "length misses \<le> length returned \<Longrightarrow>
           \<exists>db' ups es ms.
             addMemories fetch chat now drafts w
               = (Inr (), w1\<lparr>w_db := db', w_upserts := w_upserts w @ [ups]\<rparr>)
           \<and> embeddings db' = embeddings (w_db w) @ es
           \<and> memories db' = memories (w_db w) @ ms
           \<and> map (\<lambda>e. Some (e_embedding e)) es = matchByPosition cached returned
           \<and> map e_text es = map n_description drafts
           \<and> map m_importance ms = map (importanceFor chat) drafts
           \<and> map m_description ms = map n_description drafts
           \<and> memoryAccesses db' = memoryAccesses (w_db w) \<and> journal db' = journal (w_db w)"
proof -
  let ?embs = "matchByPosition cached returned"
  let ?mems = "map (\<lambda>idx. withImportance chat (drafts ! idx) (?embs ! idx)) [0 ..< length drafts]"
  have lc: "length cached = length drafts"
    by (simp add: cached_def checkEmbeddingCache_def)
  then have le: "length ?embs = length drafts"
    by (simp add: length_matchByPosition)
  note am = annotated_maps [OF le, of chat]
  have lm: "length misses = length (filter (\<lambda>c. c = None) cached)"
    unfolding misses_def using lc by (rule length_cacheMissesOf)
  have db1: "w_db w1 = w_db w" "w_upserts w1 = w_upserts w"
    by (simp_all add: w1_def)
  have unfold: "addMemories fetch chat now drafts w =
      (case addMemories_mutation now ?mems (w_db w) of
         Inl e \<Rightarrow> (Inl e, w1)
       | Inr (embeddingIds, db') \<Rightarrow>
           (Inr (),
            w1\<lparr>w_db := db',
               w_upserts := w_upserts w @
                 [map (\<lambda>idx. (embeddingIds ! idx, ?embs ! idx, an_playerId (?mems ! idx)))
                    [0 ..< length embeddingIds]]\<rparr>))"
  proof (cases "misses = []")
    case True
    then have m: "cacheMissesOf drafts (checkEmbeddingCache (w_db w) (map n_description drafts)) = []"
      by (simp add: misses_def cached_def)
    have r: "returned = []" "w1 = w" using True by (simp_all add: returned_def w1_def)
    show ?thesis
      unfolding addMemories_def Let_def popMisses_rev m cached_def r by simp
  next
    case False
    then have m: "cacheMissesOf drafts (checkEmbeddingCache (w_db w) (map n_description drafts)) \<noteq> []"
      by (simp add: misses_def cached_def)
    have r: "returned = fetch (cacheMissesOf drafts (checkEmbeddingCache (w_db w) (map n_description drafts)))"
      "w1 = w\<lparr>w_embedCalls := w_embedCalls w @
              [cacheMissesOf drafts (checkEmbeddingCache (w_db w) (map n_description drafts))]\<rparr>"
      using False by (simp_all add: returned_def w1_def misses_def cached_def)
    show ?thesis
      unfolding addMemories_def Let_def popMisses_rev cached_def r using m
      by (simp split: sum.splits prod.splits)
  qed
  {
    assume "length returned < length misses"
    then have "None \<in> set ?embs" using lm by (simp add: matchByPosition_short)
    then have "validateArgs ?mems = Inl ArgumentValidationError"
      using am(1) by (intro validateArgs_fail) simp
    then show "addMemories fetch chat now drafts w = (Inl ArgumentValidationError, w1)"
      by (simp add: unfold addMemories_mutation_def)
  }
  {
    assume "length misses \<le> length returned"
    then have "None \<notin> set ?embs" using lm by (simp add: matchByPosition_enough)
    then have "None \<notin> set (map an_embedding ?mems)" using am(1) by simp
    from validateArgs_ok [OF this] obtain vs where vs: "validateArgs ?mems = Inr vs"
      "map (\<lambda>v. Some (v_embedding v)) vs = map an_embedding ?mems"
      "map v_importance vs = map an_importance ?mems"
      "map v_description vs = map an_description ?mems" by blast
    obtain ids db' where ins: "insertMemories now vs (w_db w) = (ids, db')"
      by (cases "insertMemories now vs (w_db w)") auto
    from insertMemories_rows [OF ins] obtain es ms where r:
      "embeddings db' = embeddings (w_db w) @ es" "memories db' = memories (w_db w) @ ms"
      "map e_embedding es = map v_embedding vs" "map e_text es = map v_description vs"
      "map m_importance ms = map v_importance vs" "map m_description ms = map v_description vs"
      "memoryAccesses db' = memoryAccesses (w_db w)" "journal db' = journal (w_db w)" by blast
    have "map (\<lambda>e. Some (e_embedding e)) es = map Some (map e_embedding es)" by (simp add: o_def)
    also have "\<dots> = map (\<lambda>v. Some (v_embedding v)) vs" by (simp add: r(3) o_def)
    finally have emb: "map (\<lambda>e. Some (e_embedding e)) es = ?embs"
      using vs(2) am(1) by simp
    let ?ups = "map (\<lambda>idx. (ids ! idx, ?embs ! idx, an_playerId (?mems ! idx)))
                  [0 ..< length ids]"
    have "addMemories fetch chat now drafts w
        = (Inr (), w1\<lparr>w_db := db', w_upserts := w_upserts w @ [?ups]\<rparr>)"
      using vs(1) ins by (simp add: unfold addMemories_mutation_def)
    moreover have "map e_text es = map n_description drafts"
      "map m_importance ms = map (importanceFor chat) drafts"
      "map m_description ms = map n_description drafts"
      using r vs am by simp_all
    ultimately show "\<exists>db' ups es ms.
             addMemories fetch chat now drafts w
               = (Inr (), w1\<lparr>w_db := db', w_upserts := w_upserts w @ [ups]\<rparr>)
           \<and> embeddings db' = embeddings (w_db w) @ es
           \<and> memories db' = memories (w_db w) @ ms
           \<and> map (\<lambda>e. Some (e_embedding e)) es
               = matchByPosition cached returned
           \<and> map e_text es = map n_description drafts
           \<and> map m_importance ms = map (importanceFor chat) drafts
           \<and> map m_description ms = map n_description drafts
           \<and> memoryAccesses db' = memoryAccesses (w_db w) \<and> journal db' = journal (w_db w)"
      using r(1,2,7,8) emb by blast
  }
qed


lemma importanceOf_parseFloat:
  "importanceOf raw = (if isNaN (parseFloat raw) then Fin 5 else parseFloat raw)"
  by (simp add: importanceOf_def Let_def)

lemma importanceOf_not_NaN: "\<not> isNaN (importanceOf raw)"
  by (simp add: importanceOf_parseFloat)

text \<open>
  Claim C4, as the code has it. The claim says that a provider returning a number of vectors
  different from the number of texts makes the whole batch fail. With fewer vectors than
  texts it does: a draft is left without an embedding, the mutation rejects its arguments,
  and nothing is committed or upserted. With at least as many vectors as texts the batch
  does not fail: the cache misses take the returned vectors in order, by position, and the
  surplus is ignored.
\<close>

theorem provider_count_mismatch:
  fixes fetch :: embedding_batch and chat :: chat_completion and now :: rat
    and drafts :: "new_memory list" and w :: world
  defines "cached \<equiv> checkEmbeddingCache (w_db w) (map n_description drafts)"
  defines "misses \<equiv> cacheMissesOf drafts cached"
  shows "(length (fetch misses) < length misses \<longrightarrow>
            addMemories fetch chat now drafts w
              = (Inl ArgumentValidationError, w\<lparr>w_embedCalls := w_embedCalls w @ [misses]\<rparr>))
       \<and> (misses \<noteq> [] \<and> length misses \<le> length (fetch misses) \<longrightarrow>
            (\<exists>db' ups es ms.
               addMemories fetch chat now drafts w
                 = (Inr (), w\<lparr>w_embedCalls := w_embedCalls w @ [misses], w_db := db',
                              w_upserts := w_upserts w @ [ups]\<rparr>)
             \<and> embeddings db' = embeddings (w_db w) @ es
             \<and> memories db' = memories (w_db w) @ ms
             \<and> map (\<lambda>e. Some (e_embedding e)) es = matchByPosition cached (fetch misses)
             \<and> map e_text es = map n_description drafts
             \<and> map m_description ms = map n_description drafts))"
proof (intro conjI impI)
  assume a: "length (fetch misses) < length misses"
  then have ne: "misses \<noteq> []" by auto
  show "addMemories fetch chat now drafts w
      = (Inl ArgumentValidationError, w\<lparr>w_embedCalls := w_embedCalls w @ [misses]\<rparr>)"
    using addMemories_cases(1) [where fetch = fetch and drafts = drafts and w = w and chat = chat and now = now] a ne
    by (simp add: misses_def cached_def)
next
  assume b: "misses \<noteq> [] \<and> length misses \<le> length (fetch misses)"
  from addMemories_cases(2) [where fetch = fetch and drafts = drafts and w = w and chat = chat and now = now] b
  obtain db' ups es ms where r:
    "addMemories fetch chat now drafts w
       = (Inr (), w\<lparr>w_embedCalls := w_embedCalls w @ [misses], w_db := db',
                    w_upserts := w_upserts w @ [ups]\<rparr>)"
    "embeddings db' = embeddings (w_db w) @ es"
    "map (\<lambda>e. Some (e_embedding e)) es = matchByPosition cached (fetch misses)"
    "map e_text es = map n_description drafts"
    "memories db' = memories (w_db w) @ ms"
    "map m_description ms = map n_description drafts"
    by (auto simp: misses_def cached_def)
  then show "\<exists>db' ups es ms.
               addMemories fetch chat now drafts w
                 = (Inr (), w\<lparr>w_embedCalls := w_embedCalls w @ [misses], w_db := db',
                              w_upserts := w_upserts w @ [ups]\<rparr>)
             \<and> embeddings db' = embeddings (w_db w) @ es
             \<and> memories db' = memories (w_db w) @ ms
             \<and> map (\<lambda>e. Some (e_embedding e)) es = matchByPosition cached (fetch misses)
             \<and> map e_text es = map n_description drafts
             \<and> map m_description ms = map n_description drafts"
    by blast
qed


lemma n_description_draft: "n_description (draft t i) = t"
  by (simp add: draft_def)

lemma empty_world_misses:
  "cacheMissesOf ds (checkEmbeddingCache (w_db empty_world) (map n_description ds))
     = map n_description ds"
  by (simp add: cacheMissesOf_filter empty_world_def)

theorem provider_count_mismatch_witness:
  "addMemories one_vector answers_7 5 [draft ''x'' None, draft ''y'' None] empty_world
     = (Inl ArgumentValidationError, empty_world\<lparr>w_embedCalls := [[''x'', ''y'']]\<rparr>)
   \<and> (\<exists>db' ups es ms.
         addMemories two_vectors answers_7 5 [draft ''x'' None] empty_world
           = (Inr (), empty_world\<lparr>w_embedCalls := [[''x'']], w_db := db', w_upserts := [ups]\<rparr>)
       \<and> embeddings db' = es \<and> memories db' = ms
       \<and> map (\<lambda>e. Some (e_embedding e)) es = [Some [Fin 1]]
       \<and> map e_text es = [''x''] \<and> map m_description ms = [''x''])"
proof -
  have m2: "cacheMissesOf [draft ''x'' None, draft ''y'' None]
      (checkEmbeddingCache (w_db empty_world)
         (map n_description [draft ''x'' None, draft ''y'' None])) = [''x'', ''y'']"
    by (simp only: empty_world_misses) (simp add: draft_def)
  have m1: "cacheMissesOf [draft ''x'' None]
      (checkEmbeddingCache (w_db empty_world) (map n_description [draft ''x'' None])) = [''x'']"
    by (simp only: empty_world_misses) (simp add: draft_def)
  have c1: "checkEmbeddingCache (w_db empty_world) (map n_description [draft ''x'' None]) = [None]"
    by (simp add: checkEmbeddingCache_def empty_world_def)
  have m1': "cacheMissesOf [draft ''x'' None] [None] = [''x'']"
    using m1 unfolding c1 .
  have a: "addMemories one_vector answers_7 5 [draft ''x'' None, draft ''y'' None] empty_world
     = (Inl ArgumentValidationError, empty_world\<lparr>w_embedCalls := [[''x'', ''y'']]\<rparr>)"
    using provider_count_mismatch
      [of one_vector "[draft ''x'' None, draft ''y'' None]" empty_world answers_7 5]
    unfolding m2 by (simp add: one_vector_def) (simp add: empty_world_def)
  have b: "\<exists>db' ups es ms.
         addMemories two_vectors answers_7 5 [draft ''x'' None] empty_world
           = (Inr (), empty_world\<lparr>w_embedCalls := [[''x'']], w_db := db', w_upserts := [ups]\<rparr>)
       \<and> embeddings db' = es \<and> memories db' = ms
       \<and> map (\<lambda>e. Some (e_embedding e)) es = [Some [Fin 1]]
       \<and> map e_text es = [''x''] \<and> map m_description ms = [''x'']"
    using provider_count_mismatch [of two_vectors "[draft ''x'' None]" empty_world answers_7 5]
    unfolding c1 m1' by (simp add: two_vectors_def) (simp add: empty_world_def n_description_draft)
  show ?thesis using a b by (rule conjI)
qed

text \<open>Claim C4 as stated fails: a provider that returns two vectors for one text is
  accepted, and the pair is committed with the first vector.\<close>

theorem surplus_vectors_are_accepted:
  "length (two_vectors [''x'']) = 2 \<and> length [''x''] = (1::nat)
   \<and> fst (addMemories two_vectors answers_7 5 [draft ''x'' None] empty_world) = Inr ()
   \<and> map e_embedding
         (embeddings (w_db (snd (addMemories two_vectors answers_7 5 [draft ''x'' None]
                                   empty_world)))) = [[Fin 1]]
   \<and> map m_description
         (memories (w_db (snd (addMemories two_vectors answers_7 5 [draft ''x'' None]
                                 empty_world)))) = [''x'']
   \<and> w_embedCalls (snd (addMemories two_vectors answers_7 5 [draft ''x'' None] empty_world))
       = [[''x'']]"
  by code_simp


text \<open>
  Claim C6, as the code has it. The provider is called at most once for a batch, with the
  descriptions of the drafts whose description has no cached embedding, in draft order, one
  entry for each such draft; it is not called when every description is cached or the batch
  is empty.
\<close>

theorem texts_sent_to_provider:
  "w_embedCalls (snd (addMemories fetch chat now drafts w)) =
     w_embedCalls w @
       (if filter (\<lambda>t. find (\<lambda>e. e_text e = t) (embeddings (w_db w)) = None)
             (map n_description drafts) = []
        then []
        else [filter (\<lambda>t. find (\<lambda>e. e_text e = t) (embeddings (w_db w)) = None)
                (map n_description drafts)])"
proof -
  define misses where
    "misses = cacheMissesOf drafts (checkEmbeddingCache (w_db w) (map n_description drafts))"
  define returned where "returned = (if misses \<noteq> [] then fetch misses else [])"
  define w1 where
    "w1 = (if misses \<noteq> [] then w\<lparr>w_embedCalls := w_embedCalls w @ [misses]\<rparr> else w)"
  note c1 = addMemories_cases(1)
    [where fetch = fetch and drafts = drafts and w = w and chat = chat and now = now,
      folded misses_def, folded returned_def w1_def]
  note c2 = addMemories_cases(2)
    [where fetch = fetch and drafts = drafts and w = w and chat = chat and now = now,
      folded misses_def, folded returned_def w1_def]
  have "w_embedCalls (snd (addMemories fetch chat now drafts w)) = w_embedCalls w1"
  proof (cases "length returned < length misses")
    case True
    then have "addMemories fetch chat now drafts w = (Inl ArgumentValidationError, w1)"
      by (rule c1)
    then show ?thesis by simp
  next
    case False
    then have "length misses \<le> length returned" by simp
    from c2 [OF this] obtain db' ups where
      "addMemories fetch chat now drafts w
         = (Inr (), w1\<lparr>w_db := db', w_upserts := w_upserts w @ [ups]\<rparr>)"
      by blast
    then show ?thesis by simp
  qed
  moreover have "misses = filter (\<lambda>t. find (\<lambda>e. e_text e = t) (embeddings (w_db w)) = None)
                            (map n_description drafts)"
    unfolding misses_def by (rule cacheMissesOf_filter)
  ultimately show ?thesis by (simp add: w1_def)
qed

theorem texts_sent_to_provider_witness:
  "w_embedCalls (snd (addMemories one_per_text answers_7 5
       [draft ''x'' None, draft ''y'' None, draft ''x'' None] empty_world))
     = [[''x'', ''y'', ''x'']]
   \<and> w_embedCalls (snd (addMemories one_per_text answers_7 5 [] empty_world)) = []"
  using texts_sent_to_provider
      [of one_per_text answers_7 5 "[draft ''x'' None, draft ''y'' None, draft ''x'' None]"
        empty_world]
    texts_sent_to_provider [of one_per_text answers_7 5 "[]" empty_world]
  by (simp add: empty_world_def n_description_draft)

text \<open>Claim C6 as stated fails: a description shared by two drafts is sent twice.\<close>

theorem duplicate_descriptions_are_sent_twice:
  "w_embedCalls (snd (addMemories one_per_text answers_7 5
       [draft ''x'' None, draft ''x'' None] empty_world)) = [[''x'', ''x'']]
   \<and> count_list [''x'', ''x''] ''x'' = 2"
  by code_simp

text \<open>
  Claim C7, as the code has it. Either the call fails and stores no memory, or it stores one
  memory for each draft, in order: with the draft's own importance, unchanged, when it has
  one; otherwise with the importance read from the model's answer, which is never NaN.
\<close>

theorem stored_importance:
  "(\<exists>e. fst (addMemories fetch chat now drafts w) = Inl e
        \<and> memories (w_db (snd (addMemories fetch chat now drafts w))) = memories (w_db w))
   \<or> (\<exists>ms. fst (addMemories fetch chat now drafts w) = Inr ()
        \<and> memories (w_db (snd (addMemories fetch chat now drafts w))) = memories (w_db w) @ ms
        \<and> length ms = length drafts
        \<and> (\<forall>i<length drafts.
              case n_importance (drafts ! i) of
                Some v \<Rightarrow> m_importance (ms ! i) = v
              | None \<Rightarrow>
                  m_importance (ms ! i)
                    = importanceOf (chat [n_description (drafts ! i), importancePrompt] 1)
                  \<and> \<not> isNaN (m_importance (ms ! i))))"
proof -
  define misses where
    "misses = cacheMissesOf drafts (checkEmbeddingCache (w_db w) (map n_description drafts))"
  define returned where "returned = (if misses \<noteq> [] then fetch misses else [])"
  define w1 where
    "w1 = (if misses \<noteq> [] then w\<lparr>w_embedCalls := w_embedCalls w @ [misses]\<rparr> else w)"
  note c1 = addMemories_cases(1)
    [where fetch = fetch and drafts = drafts and w = w and chat = chat and now = now,
      folded misses_def, folded returned_def w1_def]
  note c2 = addMemories_cases(2)
    [where fetch = fetch and drafts = drafts and w = w and chat = chat and now = now,
      folded misses_def, folded returned_def w1_def]
  show ?thesis
  proof (cases "length returned < length misses")
    case True
    then have "addMemories fetch chat now drafts w = (Inl ArgumentValidationError, w1)"
      by (rule c1)
    moreover have "w_db w1 = w_db w" by (simp add: w1_def)
    ultimately show ?thesis by simp
  next
    case False
    then have "length misses \<le> length returned" by simp
    from c2 [OF this] obtain db' ups ms where r:
      "addMemories fetch chat now drafts w
         = (Inr (), w1\<lparr>w_db := db', w_upserts := w_upserts w @ [ups]\<rparr>)"
      "memories db' = memories (w_db w) @ ms"
      "map m_importance ms = map (importanceFor chat) drafts"
      by blast
    have len: "length ms = length drafts"
      using r(3) by (metis length_map)
    have imp: "m_importance (ms ! i) = importanceFor chat (drafts ! i)" if "i < length drafts" for i
      using that len arg_cong [OF r(3), of "\<lambda>l. l ! i"] by simp
    have "\<forall>i<length drafts.
              case n_importance (drafts ! i) of
                Some v \<Rightarrow> m_importance (ms ! i) = v
              | None \<Rightarrow>
                  m_importance (ms ! i)
                    = importanceOf (chat [n_description (drafts ! i), importancePrompt] 1)
                  \<and> \<not> isNaN (m_importance (ms ! i))"
      using imp by (auto simp: importanceFor_def importanceOf_not_NaN split: option.splits)
    then show ?thesis using r(1,2) len by simp
  qed
qed

theorem stored_importance_witness:
  "\<exists>ms. fst (addMemories one_per_text answers_7 5
              [draft ''x'' (Some (Fin 3)), draft ''y'' None] empty_world) = Inr ()
      \<and> memories (w_db (snd (addMemories one_per_text answers_7 5
              [draft ''x'' (Some (Fin 3)), draft ''y'' None] empty_world))) = ms
      \<and> m_importance (ms ! 0) = Fin 3
      \<and> m_importance (ms ! 1) = Fin 7 \<and> \<not> isNaN (m_importance (ms ! 1))"
proof -
  let ?r = "addMemories one_per_text answers_7 5
              [draft ''x'' (Some (Fin 3)), draft ''y'' None] empty_world"
  have ok: "fst ?r = Inr ()" by code_simp
  have i7: "importanceOf ''7'' = Fin 7" by code_simp
  from stored_importance
    [of one_per_text answers_7 5 "[draft ''x'' (Some (Fin 3)), draft ''y'' None]" empty_world] ok
  obtain ms where ms: "memories (w_db (snd ?r)) = memories (w_db empty_world) @ ms"
    "\<forall>i<length [draft ''x'' (Some (Fin 3)), draft ''y'' None].
       case n_importance ([draft ''x'' (Some (Fin 3)), draft ''y'' None] ! i) of
         Some v \<Rightarrow> m_importance (ms ! i) = v
       | None \<Rightarrow>
           m_importance (ms ! i)
             = importanceOf (answers_7 [n_description
                 ([draft ''x'' (Some (Fin 3)), draft ''y'' None] ! i), importancePrompt] 1)
           \<and> \<not> isNaN (m_importance (ms ! i))"
    by auto
  from ms(2) [rule_format, of 0] ms(2) [rule_format, of 1]
  have "m_importance (ms ! 0) = Fin 3"
    "m_importance (ms ! 1) = Fin 7 \<and> \<not> isNaN (m_importance (ms ! 1))"
    by (simp_all add: draft_def answers_7_def i7)
  moreover have "memories (w_db (snd ?r)) = ms"
    using ms(1) by (simp add: empty_world_def)
  ultimately show ?thesis using ok by blast
qed

text \<open>Claim C7 as stated fails: an explicit importance of 42 is stored as it is.\<close>

theorem explicit_importance_is_not_checked:
  "map m_importance
     (memories (w_db (snd (addMemories one_per_text answers_7 5
        [draft ''x'' (Some (Fin 42))] empty_world)))) = [Fin 42]
   \<and> num_lt (Fin 9) (Fin 42)"
  by code_simp

subsection \<open>Conversation summaries: claim C8\<close>

lemma rememberConversation_boundary:
  assumes "truthy t" and "lastConversationMemoryOf (w_db w) playerId = Some m"
    and "num_lt t (Fin (m_creationTime m))"
  shows "rememberConversation clientMessage history fetch chat now playerName playerId
           playerIdentity conversationId (Some t) w = (Inr False, w)"
  using assms by (simp add: rememberConversation_def getRecentMessages_def Let_def)

lemma rememberConversation_no_messages:
  assumes "getRecentMessages clientMessage (w_db w) playerId conversationId lastSpokeTs = Inr []"
  shows "rememberConversation clientMessage history fetch chat now playerName playerId
           playerIdentity conversationId lastSpokeTs w = (Inr False, w)"
  using assms by (simp add: rememberConversation_def)

text \<open>
  Claim C8. \<open>rememberConversation\<close> should return false and create no memory when
  \<open>lastSpokeTs\<close> is before the creation of the agent's last conversation memory, and
  likewise when there is no qualifying message.

  The first part is as the two lemmas above say. The second fails when the conversation has
  no \<open>talking\<close> entry and the agent's last conversation memory is not of this
  conversation: \<open>allMessages[0]._creationTime\<close> reads a field of \<open>undefined\<close>, and the
  call throws instead of returning false.
\<close>

theorem no_messages_throws:
  "getRecentMessages plain_mapper (w_db empty_world) 1 3 None = Inl TypeError
   \<and> rememberConversation plain_mapper (map msg_content) one_per_text answers_7 5
       ''Alice'' 1 ''a painter'' 3 None empty_world = (Inl TypeError, empty_world)
   \<and> getRecentMessages plain_mapper talk_db 1 4 None = Inl TypeError"
  by (simp add: rememberConversation_def getRecentMessages_def previousMemoryTs_def
      lastConversationMemoryOf_def conversationOf_def empty_world_def talk_db_def Let_def)

text \<open>The guard on \<open>lastSpokeTs\<close> is \<open>lastSpokeTs && ...\<close>: a timestamp of 50, before the
  memory's creation at 100, returns no message; the timestamp 0 is falsy and skips the
  guard.\<close>

lemma zero_lastSpokeTs_skips_guard:
  "getRecentMessages plain_mapper talk_db 1 3 (Some (Fin 50)) = Inr []
   \<and> getRecentMessages plain_mapper talk_db 1 3 (Some (Fin 0))
       = Inr [\<lparr>msg_from = 1, msg_to = [2], msg_ts = 200, msg_content = ''hello''\<rparr>]"
  by (simp add: getRecentMessages_def previousMemoryTs_def lastConversationMemoryOf_def
      conversationOf_def talk_db_def plain_mapper_def Let_def)

end
